theory Spec2Isabelle
  imports Main "HOL-Library.Sublist"
begin

section \<open>Python text primitives\<close>

text \<open>
  A Python \<open>str\<close> is modelled as a \<open>string\<close>, one \<open>char\<close> per code point, so the
  model covers the texts whose code points lie below 256. The whitespace set of
  \<open>str.strip\<close>, \<open>str.isspace\<close> and the pattern class \<open>\s\<close>, and the line boundaries
  of \<open>str.splitlines\<close>, are the members of Python's sets in that range.
\<close>

definition py_isspace :: \<open>char \<Rightarrow> bool\<close> where
  \<open>py_isspace c = (c \<in> set [CHR 0x09, CHR 0x0A, CHR 0x0B, CHR 0x0C, CHR 0x0D,
                              CHR 0x1C, CHR 0x1D, CHR 0x1E, CHR 0x1F, CHR 0x20,
                              CHR 0x85, CHR 0xA0])\<close>

definition is_linebreak :: \<open>char \<Rightarrow> bool\<close> where
  \<open>is_linebreak c = (c \<in> set [CHR 0x0A, CHR 0x0B, CHR 0x0C, CHR 0x0D,
                                CHR 0x1C, CHR 0x1D, CHR 0x1E, CHR 0x85])\<close>

definition strip :: \<open>string \<Rightarrow> string\<close> where
  \<open>strip s = rev (dropWhile py_isspace (rev (dropWhile py_isspace s)))\<close>

text \<open>\<open>sub in s\<close>: \<open>sub\<close> occurs in \<open>s\<close> as a contiguous piece.\<close>

fun py_in :: \<open>string \<Rightarrow> string \<Rightarrow> bool\<close> where
  \<open>py_in sub [] = (sub = [])\<close>
| \<open>py_in sub (c # cs) = (prefix sub (c # cs) \<or> py_in sub cs)\<close>

text \<open>\<open>s.split(sep)\<close> for a separator of one character: never an empty list.\<close>

fun split_on :: \<open>char \<Rightarrow> string \<Rightarrow> string list\<close> where
  \<open>split_on sep [] = [[]]\<close>
| \<open>split_on sep (c # cs) =
     (if c = sep then [] # split_on sep cs
      else (case split_on sep cs of
              p # ps \<Rightarrow> (c # p) # ps
            | [] \<Rightarrow> [[c]]))\<close>

text \<open>
  \<open>s.splitlines()\<close>: the text is cut at every line boundary, \<open>\r\n\<close> counting as one,
  the boundaries are dropped, and a text that ends with a boundary yields no empty
  last line. The first argument is the line read so far.
\<close>

fun splitlines_from :: \<open>string \<Rightarrow> string \<Rightarrow> string list\<close> where
  \<open>splitlines_from cur [] = (if cur = [] then [] else [cur])\<close>
| \<open>splitlines_from cur (c # cs) =
     (if c = CHR 0x0D then
        (case cs of
           d # ds \<Rightarrow> if d = CHR 0x0A then cur # splitlines_from [] ds
                     else cur # splitlines_from [] cs
         | [] \<Rightarrow> cur # splitlines_from [] cs)
      else if is_linebreak c then cur # splitlines_from [] cs
      else splitlines_from (cur @ [c]) cs)\<close>

definition splitlines :: \<open>string \<Rightarrow> string list\<close> where
  \<open>splitlines s = splitlines_from [] s\<close>

text \<open>\<open>"\n".join(lines)\<close>.\<close>

fun join_lines :: \<open>string list \<Rightarrow> string\<close> where
  \<open>join_lines [] = []\<close>
| \<open>join_lines [l] = l\<close>
| \<open>join_lines (l # m # ls) = l @ CHR 0x0A # join_lines (m # ls)\<close>

subsection \<open>Integers as text\<close>

definition is_digit :: \<open>char \<Rightarrow> bool\<close> where
  \<open>is_digit c = (c \<in> set ''0123456789'')\<close>

definition digit_val :: \<open>char \<Rightarrow> int\<close> where
  \<open>digit_val c = int (of_char c) - 48\<close>

text \<open>
  The digits of \<open>int(s)\<close> in base ten: at least one digit, and single underscores
  between digits only. The flag says that the character before was a digit.
\<close>

fun int_body :: \<open>int \<Rightarrow> bool \<Rightarrow> string \<Rightarrow> int option\<close> where
  \<open>int_body acc prev [] = (if prev then Some acc else None)\<close>
| \<open>int_body acc prev (c # cs) =
     (if is_digit c then int_body (acc * 10 + digit_val c) True cs
      else if c = CHR ''_'' \<and> prev then int_body acc False cs
      else None)\<close>

text \<open>
  The whitespace that \<open>int(s)\<close> skips at both ends is narrower than that of
  \<open>str.strip\<close>: the ASCII characters tab to carriage return and the space, and the
  whitespace beyond ASCII, which is \<open>0x85\<close> and \<open>0xA0\<close> below 256. The separators
  \<open>0x1C\<close> to \<open>0x1F\<close> are not skipped, so \<open>int\<close> raises on a text that one of them
  edges.
\<close>

definition int_isspace :: \<open>char \<Rightarrow> bool\<close> where
  \<open>int_isspace c = (c \<in> set [CHR 0x09, CHR 0x0A, CHR 0x0B, CHR 0x0C, CHR 0x0D,
                               CHR 0x20, CHR 0x85, CHR 0xA0])\<close>

definition int_strip :: \<open>string \<Rightarrow> string\<close> where
  \<open>int_strip s = rev (dropWhile int_isspace (rev (dropWhile int_isspace s)))\<close>

text \<open>
  \<open>int(s)\<close>: surrounding whitespace is dropped, one sign may lead, \<open>None\<close> stands for
  the \<open>ValueError\<close>. The interpreter's limit on the number of digits is not modelled.
\<close>

definition py_int :: \<open>string \<Rightarrow> int option\<close> where
  \<open>py_int s =
     (case int_strip s of
        [] \<Rightarrow> None
      | c # cs \<Rightarrow>
          if c = CHR ''-'' then map_option uminus (int_body 0 False cs)
          else if c = CHR ''+'' then int_body 0 False cs
          else int_body 0 False (c # cs))\<close>

text \<open>\<open>str(n)\<close>, as an f-string writes an integer.\<close>

fun str_of_nat :: \<open>nat \<Rightarrow> string\<close> where
  \<open>str_of_nat n =
     (if n < 10 then [''0123456789'' ! n]
      else str_of_nat (n div 10) @ [''0123456789'' ! (n mod 10)])\<close>

declare str_of_nat.simps [simp del]

definition str_of_int :: \<open>int \<Rightarrow> string\<close> where
  \<open>str_of_int i = (if i < 0 then CHR ''-'' # str_of_nat (nat (- i)) else str_of_nat (nat i))\<close>

section \<open>Season dates (weather_rotator)\<close>

text \<open>
  \<open>_build_date_for_season\<close> returns (year, month, day). The date of the run, which the
  source reads from the clock for the tag \<open>realistic\<close>, is the first argument.
\<close>

definition build_date_for_season :: \<open>int \<times> int \<times> int \<Rightarrow> string \<Rightarrow> int \<times> int \<times> int\<close> where
  \<open>build_date_for_season today season =
     (if season = ''realistic'' then today
      else if season = ''summer'' then (2025, 8, 1)
      else if season = ''winter'' then (2025, 2, 1)
      else if season = ''autumn'' then (2025, 10, 1)
      else if season = ''spring'' then (2025, 5, 1)
      else (2025, 9, 1))\<close>

section \<open>Weather template selection (weather_rotator)\<close>

datatype pool = Bad | Good

text \<open>
  The template directories as the selection sees them: whether each exists, the
  \<open>*.config\<close> files in it, and what reading a file gives (\<open>None\<close> when the read raises).
\<close>

record weather_dirs =
  dir_exists :: \<open>pool \<Rightarrow> bool\<close>
  candidates :: \<open>pool \<Rightarrow> string list\<close>
  read_template :: \<open>string \<Rightarrow> string option\<close>

definition clamp_percentage :: \<open>int \<Rightarrow> int\<close> where
  \<open>clamp_percentage bad_percentage =
     (let p = (if bad_percentage < 0 then 0 else bad_percentage)
      in if p > 100 then 100 else p)\<close>

definition chosen_dir :: \<open>int \<Rightarrow> int \<Rightarrow> pool\<close> where
  \<open>chosen_dir bad_percentage roll =
     (if roll \<le> clamp_percentage bad_percentage then Bad else Good)\<close>

text \<open>
  \<open>_pick_weather_template\<close>: \<open>roll\<close> is the value of \<open>random.randint(1, 100)\<close> and
  \<open>pick\<close> the position that \<open>random.choice\<close> takes among the candidates.
\<close>

definition pick_weather_template ::
  \<open>weather_dirs \<Rightarrow> int \<Rightarrow> nat \<Rightarrow> int \<Rightarrow> string option\<close> where
  \<open>pick_weather_template w roll pick bad_percentage =
     (let d = chosen_dir bad_percentage roll in
      if \<not> dir_exists w d then None
      else if candidates w d = [] then None
      else read_template w (candidates w d ! (pick mod length (candidates w d))))\<close>

section \<open>The start_time field (mission_time_updater)\<close>

definition MAX_TIME :: int where
  \<open>MAX_TIME = 86399\<close>

text \<open>The test of both loops: \<open>'"start_time"' in line or '["start_time"]' in line\<close>.\<close>

definition has_marker :: \<open>string \<Rightarrow> bool\<close> where
  \<open>has_marker line = (py_in ''"start_time"'' line \<or> py_in ''["start_time"]'' line)\<close>

text \<open>
  The body of the \<open>try\<close> in \<open>_parse_start_time\<close>: \<open>None\<close> when it raises, which is the
  \<open>IndexError\<close> of a line without \<open>=\<close> or the \<open>ValueError\<close> of \<open>int\<close>.
\<close>

definition parse_line :: \<open>string \<Rightarrow> int option\<close> where
  \<open>parse_line line =
     (let cleaned = strip line in
      case split_on (CHR ''='') cleaned of
        _ # after_eq # _ \<Rightarrow>
          (case split_on (CHR '','') after_eq of
             number # _ \<Rightarrow> py_int (strip number)
           | [] \<Rightarrow> None)
      | _ \<Rightarrow> None)\<close>

text \<open>The loop of \<open>_parse_start_time\<close>, its variable \<open>last_value\<close> as the first argument.\<close>

fun scan_last_value :: \<open>int option \<Rightarrow> string list \<Rightarrow> int option\<close> where
  \<open>scan_last_value last_value [] = last_value\<close>
| \<open>scan_last_value last_value (line # rest) =
     scan_last_value
       (if has_marker line then
          (case parse_line line of Some n \<Rightarrow> Some n | None \<Rightarrow> last_value)
        else last_value) rest\<close>

definition parse_start_time :: \<open>string \<Rightarrow> int option\<close> where
  \<open>parse_start_time text = scan_last_value None (splitlines text)\<close>

text \<open>The loop of \<open>_replace_start_time\<close>: the index \<open>i\<close> and the variable \<open>last_index\<close>.\<close>

fun scan_last_index :: \<open>nat \<Rightarrow> nat option \<Rightarrow> string list \<Rightarrow> nat option\<close> where
  \<open>scan_last_index i last_index [] = last_index\<close>
| \<open>scan_last_index i last_index (line # rest) =
     scan_last_index (Suc i) (if has_marker line then Some i else last_index) rest\<close>

definition start_time_line :: \<open>int \<Rightarrow> string\<close> where
  \<open>start_time_line new_value = CHR 0x09 # ''["start_time"] = '' @ str_of_int new_value @ '',''\<close>

definition replace_start_time :: \<open>string \<Rightarrow> int \<Rightarrow> string\<close> where
  \<open>replace_start_time text new_value =
     (let lines = splitlines text in
      case scan_last_index 0 None lines of
        None \<Rightarrow> text
      | Some last_index \<Rightarrow> join_lines (lines[last_index := start_time_line new_value]))\<close>

section \<open>Pattern matching as \<open>re\<close> does it\<close>

text \<open>
  The two patterns of weather_rotator are sequences of literal pieces, greedy and lazy
  repetitions of a character class, and one optional group. \<open>re_match\<close> is the
  backtracking matcher for such a sequence at the start of a text: it returns the text
  left after the match that \<open>re\<close> finds first. A greedy repetition takes as many
  characters as it can and gives them back one by one, a lazy one takes as few as
  it can, and an optional group is tried before it is skipped.
\<close>

datatype cls = Space | AnyChar

datatype item = Lit string | Star cls | Lazy cls | Opt \<open>item list\<close>

fun in_cls :: \<open>cls \<Rightarrow> char \<Rightarrow> bool\<close> where
  \<open>in_cls Space c = py_isspace c\<close>
| \<open>in_cls AnyChar c = True\<close>

fun item_weight :: \<open>item \<Rightarrow> nat\<close> where
  \<open>item_weight (Lit l) = 1\<close>
| \<open>item_weight (Star k) = 1\<close>
| \<open>item_weight (Lazy k) = 1\<close>
| \<open>item_weight (Opt g) = Suc (sum_list (map item_weight g))\<close>

function re_match :: \<open>item list \<Rightarrow> string \<Rightarrow> string option\<close> where
  \<open>re_match [] s = Some s\<close>
| \<open>re_match (Lit l # r) s =
     (if prefix l s then re_match r (drop (length l) s) else None)\<close>
| \<open>re_match (Star k # r) [] = re_match r []\<close>
| \<open>re_match (Star k # r) (c # cs) =
     (if in_cls k c then
        (case re_match (Star k # r) cs of
           Some t \<Rightarrow> Some t
         | None \<Rightarrow> re_match r (c # cs))
      else re_match r (c # cs))\<close>
| \<open>re_match (Lazy k # r) [] = re_match r []\<close>
| \<open>re_match (Lazy k # r) (c # cs) =
     (case re_match r (c # cs) of
        Some t \<Rightarrow> Some t
      | None \<Rightarrow> if in_cls k c then re_match (Lazy k # r) cs else None)\<close>
| \<open>re_match (Opt g # r) s =
     (case re_match (g @ r) s of
        Some t \<Rightarrow> Some t
      | None \<Rightarrow> re_match r s)\<close>
  by pat_completeness auto
termination
  by (relation \<open>measures [\<lambda>(p, s). sum_list (map item_weight p), \<lambda>(p, s). length s]\<close>) auto

text \<open>
  \<open>pattern.search\<close>: the first position where the pattern matches, as the text before
  the match and the text after it.
\<close>

fun re_search :: \<open>item list \<Rightarrow> string \<Rightarrow> (string \<times> string) option\<close> where
  \<open>re_search p [] = map_option (\<lambda>t. ([], t)) (re_match p [])\<close>
| \<open>re_search p (c # cs) =
     (case re_match p (c # cs) of
        Some t \<Rightarrow> Some ([], t)
      | None \<Rightarrow> map_option (\<lambda>(b, t). (c # b, t)) (re_search p cs))\<close>

section \<open>The date block and the weather block (weather_rotator)\<close>

text \<open>The pattern of \<open>_update_date_block\<close>, compiled with \<open>re.DOTALL\<close>:
  \<^verbatim>\<open>\s*\["date"\]\s*=\s*\{.*?\},\s*(?:--\s*end of \["date"\])?\<close>\<close>

definition end_marker_group :: \<open>item list\<close> where
  \<open>end_marker_group = [Lit ''--'', Star Space, Lit ''end of ["date"]'']\<close>

definition date_pattern :: \<open>item list\<close> where
  \<open>date_pattern =
     [Star Space, Lit ''["date"]'', Star Space, Lit ''='', Star Space, Lit ''{'',
      Lazy AnyChar, Lit ''},'', Star Space, Opt end_marker_group]\<close>

definition new_block :: \<open>int \<times> int \<times> int \<Rightarrow> string\<close> where
  \<open>new_block ymd =
     (case ymd of (year, month, day) \<Rightarrow>
        CHR 0x09 # ''["date"] = '' @ [CHR 0x0A] @
        CHR 0x09 # ''{'' @ [CHR 0x0A] @
        [CHR 0x09, CHR 0x09] @ ''["Day"] = '' @ str_of_int day @ '','' @ [CHR 0x0A] @
        [CHR 0x09, CHR 0x09] @ ''["Year"] = '' @ str_of_int year @ '','' @ [CHR 0x0A] @
        [CHR 0x09, CHR 0x09] @ ''["Month"] = '' @ str_of_int month @ '','' @ [CHR 0x0A] @
        CHR 0x09 # ''}, -- end of ["date"]'' @ [CHR 0x0A])\<close>

text \<open>
  \<open>_update_date_block\<close>: \<open>None\<close> when the pattern is not found, else the text with the
  first match replaced (\<open>pattern.sub\<close> with \<open>count=1\<close>). The replacement holds no
  backslash, so \<open>re\<close> inserts it as it is. \<open>replace_date_block\<close> is the function once
  its first line has built the date.
\<close>

definition replace_date_block :: \<open>int \<times> int \<times> int \<Rightarrow> string \<Rightarrow> string option\<close> where
  \<open>replace_date_block ymd text =
     (case re_search date_pattern text of
        None \<Rightarrow> None
      | Some (before, after) \<Rightarrow> Some (before @ new_block ymd @ after))\<close>

definition update_date_block :: \<open>int \<times> int \<times> int \<Rightarrow> string \<Rightarrow> string \<Rightarrow> string option\<close> where
  \<open>update_date_block today text season =
     replace_date_block (build_date_for_season today season) text\<close>

text \<open>The pattern of \<open>_replace_weather_block\<close>, compiled with \<open>re.DOTALL\<close>:
  \<^verbatim>\<open>\["weather"\]\s*=\s*\{.*?\},\s*-- end of \["weather"\]\<close>\<close>

definition weather_pattern :: \<open>item list\<close> where
  \<open>weather_pattern =
     [Lit ''["weather"]'', Star Space, Lit ''='', Star Space, Lit ''{'',
      Lazy AnyChar, Lit ''},'', Star Space, Lit ''-- end of ["weather"]'']\<close>

text \<open>
  \<open>_replace_weather_block\<close>. The template is the replacement argument of
  \<open>pattern.sub\<close>, where \<open>re\<close> reads backslash escapes: \<open>expand\<close> is that reading, the
  text to insert, or \<open>None\<close> when \<open>re\<close> rejects the template, an error the source does
  not catch. The outer \<open>None\<close> is the block not found, the inner one that error.
\<close>

definition replace_weather_block ::
  \<open>(string \<Rightarrow> string option) \<Rightarrow> string \<Rightarrow> string \<Rightarrow> string option option\<close> where
  \<open>replace_weather_block expand text new_weather_block =
     (case re_search weather_pattern text of
        None \<Rightarrow> None
      | Some (before, after) \<Rightarrow>
          Some (map_option (\<lambda>r. before @ r @ after) (expand new_weather_block)))\<close>

section \<open>Process control and the archive tool\<close>

text \<open>
  What a run does to the outside is recorded as a list of events, in order: the scan
  of the running processes, a notification, a kill, a wait in seconds, a call of the
  archive tool, the read and the write of the extracted mission file, and the spawn of
  the server. A message names the text that the source sends; \<open>FieldNotFound\<close> is
  "No start_time found inside mission file.", \<open>DateBlockNotFound\<close> is "Failed to update
  date block.", \<open>NoTemplatesAvailable\<close> is "Failed to choose weather template." and
  \<open>WeatherBlockNotFound\<close> is "Failed to replace weather block in mission.". The two
  modules hold the same helpers with their own wording of each message. Log lines are
  left out, and so is a failure of the notifier, which the source catches and logs.
\<close>

datatype severity = Info | Error

datatype message =
    ServerStopped | ServerRestarted
  | MizNotFound | StopFailed | SevenZipError | ExtractionFailed | MissionMissing
  | ReadFailed | FieldNotFound | WriteFailed | RepackFailed | StartFailed
  | ConfigLoadFailed | ConfigEmpty | MissionPathMissing
  | DateBlockNotFound | NoTemplatesAvailable | WeatherBlockNotFound

datatype zip_op = Extract | Update

datatype event =
    ProcessScan
  | Notify severity message
  | Kill nat
  | Sleep nat
  | SevenZip zip_op
  | ReadMission
  | WriteMission string
  | Popen

text \<open>A workflow returns a boolean, or an exception that it does not catch leaves it.\<close>

datatype outcome = Returned bool | Raised

type_synonym run = \<open>outcome \<times> event list\<close>

definition after :: \<open>event list \<Rightarrow> run \<Rightarrow> run\<close> where
  \<open>after evs r = (fst r, evs @ snd r)\<close>

definition fail_local :: \<open>message \<Rightarrow> run\<close> where
  \<open>fail_local reason = (Returned False, [Notify Error reason])\<close>

text \<open>
  What a run finds outside: whether the archive is there, the running processes as
  (pid, name) in the order of the scan, whether killing a pid raises, the exit code
  of each call of the archive tool (\<open>None\<close> when the tool cannot be run, which raises),
  whether the extracted file is there, its text (\<open>None\<close> when the read raises), whether
  the write raises, and whether the spawn of the server raises.
\<close>

record world =
  miz_exists :: bool
  processes :: \<open>(nat \<times> string option) list\<close>
  kill_raises :: \<open>nat \<Rightarrow> bool\<close>
  extract_returncode :: \<open>int option\<close>
  mission_extracted :: bool
  mission_text :: \<open>string option\<close>
  write_raises :: bool
  update_returncode :: \<open>int option\<close>
  popen_raises :: bool

text \<open>
  The test of the loop in \<open>_kill_dcs_server_if_running\<close>:
  \<open>name = proc.info.get("name") or ""\<close>, then \<open>"DCS_server.exe" in name\<close>.
\<close>

definition names_server :: \<open>string option \<Rightarrow> bool\<close> where
  \<open>names_server name =
     py_in ''DCS_server.exe'' (case name of None \<Rightarrow> [] | Some n \<Rightarrow> n)\<close>

text \<open>The loop of \<open>_kill_dcs_server_if_running\<close> over the scanned processes.\<close>

fun stop_first_match :: \<open>(nat \<Rightarrow> bool) \<Rightarrow> (nat \<times> string option) list \<Rightarrow> bool \<times> event list\<close> where
  \<open>stop_first_match kr [] = (True, [])\<close>
| \<open>stop_first_match kr ((pid, name) # rest) =
     (if names_server name then
        (if kr pid then (False, [Notify Info ServerStopped, Kill pid, Notify Error StopFailed])
         else (True, [Notify Info ServerStopped, Kill pid, Sleep 15]))
      else stop_first_match kr rest)\<close>

definition kill_dcs_server_if_running ::
  \<open>(nat \<Rightarrow> bool) \<Rightarrow> (nat \<times> string option) list \<Rightarrow> bool \<times> event list\<close> where
  \<open>kill_dcs_server_if_running kr procs =
     (case stop_first_match kr procs of (ok, evs) \<Rightarrow> (ok, ProcessScan # evs))\<close>

definition start_dcs_server :: \<open>bool \<Rightarrow> bool \<times> event list\<close> where
  \<open>start_dcs_server raises =
     (if raises then (False, [Popen, Notify Error StartFailed])
      else (True, [Popen, Notify Info ServerRestarted]))\<close>

text \<open>\<open>_run_7zip\<close>: \<open>None\<close> when \<open>subprocess.run\<close> raises.\<close>

definition run_7zip :: \<open>int option \<Rightarrow> zip_op \<Rightarrow> bool option \<times> event list\<close> where
  \<open>run_7zip returncode op =
     (case returncode of
        None \<Rightarrow> (None, [SevenZip op])
      | Some rc \<Rightarrow>
          if rc \<noteq> 0 then (Some False, [SevenZip op, Notify Error SevenZipError])
          else (Some True, [SevenZip op]))\<close>

section \<open>The time-persistence workflow (mission_time_updater)\<close>

text \<open>
  What \<open>update_miz_start_time\<close> makes of the text it has read: the current value, the
  new value \<open>(current_start + seconds_to_add) % (MAX_TIME + 1)\<close>, and the new text.
\<close>

definition updated_mission_text :: \<open>string \<Rightarrow> int \<Rightarrow> message + string\<close> where
  \<open>updated_mission_text text seconds_to_add =
     (case parse_start_time text of
        None \<Rightarrow> Inl FieldNotFound
      | Some current_start \<Rightarrow>
          (let new_time = (current_start + seconds_to_add) mod (MAX_TIME + 1)
           in Inr (replace_start_time text new_time)))\<close>

definition update_miz_start_time :: \<open>'a world_scheme \<Rightarrow> int \<Rightarrow> run\<close> where
  \<open>update_miz_start_time w seconds_to_add =
     (if \<not> miz_exists w then fail_local MizNotFound
      else case kill_dcs_server_if_running (kill_raises w) (processes w) of
        (stopped, ev1) \<Rightarrow>
        if \<not> stopped then (Returned False, ev1)
        else after ev1
         (case run_7zip (extract_returncode w) Extract of
            (None, ev2) \<Rightarrow> (Raised, ev2)
          | (Some extracted, ev2) \<Rightarrow>
            if \<not> extracted then after ev2 (fail_local ExtractionFailed)
            else after ev2
             (if \<not> mission_extracted w then fail_local MissionMissing
              else case mission_text w of
                None \<Rightarrow> after [ReadMission] (fail_local ReadFailed)
              | Some text \<Rightarrow> after [ReadMission]
                 (case updated_mission_text text seconds_to_add of
                    Inl reason \<Rightarrow> fail_local reason
                  | Inr new_text \<Rightarrow>
                    if write_raises w
                    then after [WriteMission new_text] (fail_local WriteFailed)
                    else after [WriteMission new_text]
                     (case run_7zip (update_returncode w) Update of
                        (None, ev3) \<Rightarrow> (Raised, ev3)
                      | (Some updated, ev3) \<Rightarrow>
                        if \<not> updated then after ev3 (fail_local RepackFailed)
                        else after ev3
                         (case start_dcs_server (popen_raises w) of
                            (started, ev4) \<Rightarrow> (Returned started, ev4)))))))\<close>

section \<open>The weather-rotation workflow (weather_rotator)\<close>

text \<open>
  A value as \<open>json.loads\<close> returns it. Of a number that is read as a float the model
  keeps what the workflow can see of it: whether it is zero, and its integer part,
  \<open>None\<close> for an infinity or a NaN. An object is the list of its members in the order
  of the file.
\<close>

datatype json =
    JNull
  | JBool bool
  | JInt int
  | JFloat bool \<open>int option\<close>
  | JString string
  | JArray \<open>json list\<close>
  | JObject \<open>(string \<times> json) list\<close>

text \<open>What Python takes as true in \<open>if not x\<close>.\<close>

fun truthy :: \<open>json \<Rightarrow> bool\<close> where
  \<open>truthy JNull = False\<close>
| \<open>truthy (JBool b) = b\<close>
| \<open>truthy (JInt n) = (n \<noteq> 0)\<close>
| \<open>truthy (JFloat zero whole) = (\<not> zero)\<close>
| \<open>truthy (JString s) = (s \<noteq> [])\<close>
| \<open>truthy (JArray xs) = (xs \<noteq> [])\<close>
| \<open>truthy (JObject members) = (members \<noteq> [])\<close>

text \<open>\<open>cfg.get(key, default)\<close> on a dict; of a key that the file holds twice the last member counts.\<close>

definition dict_get :: \<open>(string \<times> json) list \<Rightarrow> string \<Rightarrow> json \<Rightarrow> json\<close> where
  \<open>dict_get members key dflt =
     (case map_of (rev members) key of None \<Rightarrow> dflt | Some v \<Rightarrow> v)\<close>

text \<open>
  \<open>int(x)\<close> on such a value: \<open>None\<close> when it raises, which is the \<open>ValueError\<close> of a
  text that is no integer or of a NaN, the \<open>OverflowError\<close> of an infinity, and the
  \<open>TypeError\<close> of \<open>null\<close>, a list or an object.
\<close>

fun int_of_json :: \<open>json \<Rightarrow> int option\<close> where
  \<open>int_of_json (JInt n) = Some n\<close>
| \<open>int_of_json (JBool b) = Some (if b then 1 else 0)\<close>
| \<open>int_of_json (JFloat zero whole) = whole\<close>
| \<open>int_of_json (JString s) = py_int s\<close>
| \<open>int_of_json JNull = None\<close>
| \<open>int_of_json (JArray xs) = None\<close>
| \<open>int_of_json (JObject members) = None\<close>

text \<open>
  \<open>_build_date_for_season\<close> on the season as the configuration holds it. A value that
  is no text is not equal to \<open>"realistic"\<close>; the lookup in the table raises \<open>TypeError\<close>
  for a list or an object, which cannot be hashed (\<open>None\<close>), and gives the fallback
  for every other value.
\<close>

fun season_date :: \<open>int \<times> int \<times> int \<Rightarrow> json \<Rightarrow> (int \<times> int \<times> int) option\<close> where
  \<open>season_date today (JString tag) = Some (build_date_for_season today tag)\<close>
| \<open>season_date today (JArray xs) = None\<close>
| \<open>season_date today (JObject members) = None\<close>
| \<open>season_date today other = Some (2025, 9, 1)\<close>

text \<open>
  The configuration file as \<open>rotate_weather_in_miz\<close> reads it: \<open>Unreadable\<close> when
  reading or parsing it raises, else the value parsed.
\<close>

datatype config_file = Unreadable | Parsed json

record weather_world = world +
  config_json :: config_file
  date_today :: \<open>int \<times> int \<times> int\<close>
  randint :: int
  choice :: nat
  dirs :: weather_dirs
  expand :: \<open>string \<Rightarrow> string option\<close>

text \<open>
  \<open>rotate_weather_in_miz\<close> from STEP 1 on, with the season and the bad-weather
  percentage that it has taken from the configuration.
\<close>

definition rotate_steps :: \<open>weather_world \<Rightarrow> json \<Rightarrow> int \<Rightarrow> run\<close> where
  \<open>rotate_steps w season bad_pct =
     (case kill_dcs_server_if_running (kill_raises w) (processes w) of
        (stopped, ev1) \<Rightarrow>
        if \<not> stopped then (Returned False, ev1)
        else after ev1
         (case run_7zip (extract_returncode w) Extract of
            (None, ev2) \<Rightarrow> (Raised, ev2)
          | (Some extracted, ev2) \<Rightarrow>
            if \<not> extracted then after ev2 (fail_local ExtractionFailed)
            else after ev2
             (if \<not> mission_extracted w then fail_local MissionMissing
              else case mission_text w of
                None \<Rightarrow> after [ReadMission] (fail_local ReadFailed)
              | Some text \<Rightarrow> after [ReadMission]
                 (case season_date (date_today w) season of
                    None \<Rightarrow> (Raised, [])
                  | Some ymd \<Rightarrow>
                    (case replace_date_block ymd text of
                       None \<Rightarrow> fail_local DateBlockNotFound
                     | Some dated \<Rightarrow>
                       (case pick_weather_template (dirs w) (randint w) (choice w) bad_pct of
                          None \<Rightarrow> fail_local NoTemplatesAvailable
                        | Some template \<Rightarrow>
                          (case replace_weather_block (expand w) dated template of
                             None \<Rightarrow> fail_local WeatherBlockNotFound
                           | Some None \<Rightarrow> (Raised, [])
                           | Some (Some replaced) \<Rightarrow>
                             if write_raises w
                             then after [WriteMission replaced] (fail_local WriteFailed)
                             else after [WriteMission replaced]
                              (case run_7zip (update_returncode w) Update of
                                 (None, ev3) \<Rightarrow> (Raised, ev3)
                               | (Some updated, ev3) \<Rightarrow>
                                 if \<not> updated then after ev3 (fail_local RepackFailed)
                                 else after ev3
                                  (case start_dcs_server (popen_raises w) of
                                     (started, ev4) \<Rightarrow> (Returned started, ev4))))))))))\<close>

text \<open>
  \<open>rotate_weather_in_miz\<close>. The source reads the settings in this order: the enabled
  flag, the mission path, the season, then \<open>int(...)\<close> of the percentage, and only
  then \<open>Path(miz_path)\<close> and the test that the archive exists. It catches none of
  the errors of these steps: \<open>cfg.get\<close> on a value that is true and no object, the
  conversion of the percentage, and \<open>Path\<close> of a mission path that is no text raise
  and leave the workflow.
\<close>

definition rotate_weather_in_miz :: \<open>weather_world \<Rightarrow> run\<close> where
  \<open>rotate_weather_in_miz w =
     (case config_json w of
        Unreadable \<Rightarrow> fail_local ConfigLoadFailed
      | Parsed cfg \<Rightarrow>
        if \<not> truthy cfg then fail_local ConfigEmpty
        else case cfg of
          JObject members \<Rightarrow>
            if \<not> truthy (dict_get members ''weather_rotation_enabled'' (JBool False))
            then (Returned True, [])
            else
              (let miz_path = dict_get members ''mission_path'' (JString [])
               in if \<not> truthy miz_path then fail_local MissionPathMissing
                  else
                    (let season = dict_get members ''weather_season'' (JString ''realistic'')
                     in case int_of_json
                               (dict_get members ''weather_bad_weather_percentage'' (JInt 0)) of
                          None \<Rightarrow> (Raised, [])
                        | Some bad_pct \<Rightarrow>
                            (case miz_path of
                               JString path \<Rightarrow>
                                 if \<not> miz_exists w then fail_local MizNotFound
                                 else rotate_steps w season bad_pct
                             | _ \<Rightarrow> (Raised, []))))
        | _ \<Rightarrow> (Raised, []))\<close>

section \<open>The time extractor (time_reader)\<close>

text \<open>\<open>str.lower\<close> on the code points below 256.\<close>

definition lower_char :: \<open>char \<Rightarrow> char\<close> where
  \<open>lower_char c =
     (let n = (of_char c :: nat) in
      if (65 \<le> n \<and> n \<le> 90) \<or> (192 \<le> n \<and> n \<le> 214) \<or> (216 \<le> n \<and> n \<le> 222)
      then char_of (n + 32) else c)\<close>

definition lower :: \<open>string \<Rightarrow> string\<close> where
  \<open>lower s = map lower_char s\<close>

text \<open>\<open>s.replace("//", "/")\<close>: from the left, without overlap.\<close>

fun replace_double_slash :: \<open>string \<Rightarrow> string\<close> where
  \<open>replace_double_slash (a # b # cs) =
     (if a = CHR ''/'' \<and> b = CHR ''/'' then CHR ''/'' # replace_double_slash cs
      else a # replace_double_slash (b # cs))\<close>
| \<open>replace_double_slash cs = cs\<close>

definition normalize_path :: \<open>string \<Rightarrow> string\<close> where
  \<open>normalize_path p =
     strip (lower (replace_double_slash
       (map (\<lambda>c. if c = CHR 0x5C then CHR ''/'' else c) p)))\<close>

definition convert_hms_to_seconds :: \<open>string \<Rightarrow> int\<close> where
  \<open>convert_hms_to_seconds hms =
     (case split_on (CHR '':'') hms of
        [h, m, s] \<Rightarrow>
          (case (py_int h, py_int m, py_int s) of
             (Some hh, Some mm, Some ss) \<Rightarrow> hh * 3600 + mm * 60 + ss
           | _ \<Rightarrow> 0)
      | _ \<Rightarrow> 0)\<close>

text \<open>
  What the browser shows to \<open>extract_time_and_mission\<close>: whether the driver starts
  and loads the page, the text of each element that is waited for (\<open>None\<close> when the
  wait raises), and whether the click on the connect button goes through.
\<close>

record webgui =
  driver_starts :: bool
  server_detected_elem :: \<open>string option\<close>
  connect_clicks :: bool
  mission_elem :: \<open>string option\<close>
  time_elem :: \<open>string option\<close>

definition extract_time_and_mission ::
  \<open>webgui \<Rightarrow> string \<Rightarrow> bool \<times> string option \<times> int option\<close> where
  \<open>extract_time_and_mission page expected_miz_path =
     (if \<not> driver_starts page then (False, None, None)
      else case server_detected_elem page of
        None \<Rightarrow> (False, None, None)
      | Some detected \<Rightarrow>
        if \<not> py_in ''server detected'' (lower (strip detected)) then (False, None, None)
        else if \<not> connect_clicks page then (False, None, None)
        else case mission_elem page of
          None \<Rightarrow> (False, None, None)
        | Some shown \<Rightarrow>
          (let loaded_miz = strip shown;
               loaded_norm = normalize_path loaded_miz;
               expected_norm = normalize_path expected_miz_path
           in if loaded_norm \<noteq> expected_norm then (False, None, None)
              else case time_elem page of
                None \<Rightarrow> (False, None, None)
              | Some clock \<Rightarrow>
                (let mission_time = strip clock;
                     seconds = convert_hms_to_seconds mission_time
                 in (True, Some mission_time, Some seconds))))\<close>

section \<open>The shape of a date block\<close>

text \<open>
  A date block as it stands in a mission text: whitespace, the opening label,
  whitespace, the equals sign, whitespace, the opening brace, the fields, the closing
  \<open>},\<close> and whitespace; the end marker is the comment that may follow it.
\<close>

definition date_block :: \<open>string \<Rightarrow> string \<Rightarrow> string \<Rightarrow> string \<Rightarrow> string \<Rightarrow> string\<close> where
  \<open>date_block ws0 ws1 ws2 body ws3 =
     ws0 @ ''["date"]'' @ ws1 @ ''='' @ ws2 @ ''{'' @ body @ ''},'' @ ws3\<close>

definition end_marker :: \<open>string \<Rightarrow> string\<close> where
  \<open>end_marker ws4 = ''--'' @ ws4 @ ''end of ["date"]''\<close>

text \<open>A line holds no line boundary.\<close>

definition no_break :: \<open>string \<Rightarrow> bool\<close> where
  \<open>no_break l = list_all (\<lambda>c. \<not> is_linebreak c) l\<close>

section \<open>Events that touch the server process, and sample inputs\<close>

fun process_control :: \<open>event \<Rightarrow> bool\<close> where
  \<open>process_control ProcessScan = True\<close>
| \<open>process_control (Kill p) = True\<close>
| \<open>process_control Popen = True\<close>
| \<open>process_control e = False\<close>

text \<open>
  A mission text with a nested start_time of 100 above the top-level one of 36000,
  and two texts whose last start_time line holds no number.
\<close>

definition scenario_A :: string where
  \<open>scenario_A = ''["start_time"] = 100,'' @ [CHR 0x0A] @ ''["start_time"] = 36000,''\<close>

definition unparsable_only :: string where
  \<open>unparsable_only = ''["start_time"] = soon,''\<close>

definition unparsable_last :: string where
  \<open>unparsable_last = ''["start_time"] = 100,'' @ [CHR 0x0A] @ ''["start_time"] = soon,''\<close>

text \<open>
  The fields of a date block in the order Year, Day, Month, a later text that looks
  like a date block, the canonical blocks of 1 February and of 1 September 2025 as
  they stand in a file, a date block with a line before it and a line after it, a
  text of two lines with the first ended by \<open>\r\n\<close>, and a mission text of four
  lines, one of them ended by \<open>\r\n\<close>.
\<close>

definition sample_fields :: string where
  \<open>sample_fields =
     [CHR 0x0A, CHR 0x09, CHR 0x09] @ ''["Year"] = 2016,'' @
     [CHR 0x0A, CHR 0x09, CHR 0x09] @ ''["Day"] = 21,'' @
     [CHR 0x0A, CHR 0x09, CHR 0x09] @ ''["Month"] = 6,'' @ [CHR 0x0A, CHR 0x09]\<close>

definition later_block :: string where
  \<open>later_block = [CHR 0x0A, CHR 0x09] @ ''["date"] = {},''\<close>

definition winter_block :: string where
  \<open>winter_block =
     CHR 0x09 # ''["date"] = '' @ [CHR 0x0A] @
     CHR 0x09 # ''{'' @ [CHR 0x0A] @
     [CHR 0x09, CHR 0x09] @ ''["Day"] = 1,'' @ [CHR 0x0A] @
     [CHR 0x09, CHR 0x09] @ ''["Year"] = 2025,'' @ [CHR 0x0A] @
     [CHR 0x09, CHR 0x09] @ ''["Month"] = 2,'' @ [CHR 0x0A] @
     CHR 0x09 # ''}, -- end of ["date"]'' @ [CHR 0x0A]\<close>

definition fallback_block :: string where
  \<open>fallback_block =
     CHR 0x09 # ''["date"] = '' @ [CHR 0x0A] @
     CHR 0x09 # ''{'' @ [CHR 0x0A] @
     [CHR 0x09, CHR 0x09] @ ''["Day"] = 1,'' @ [CHR 0x0A] @
     [CHR 0x09, CHR 0x09] @ ''["Year"] = 2025,'' @ [CHR 0x0A] @
     [CHR 0x09, CHR 0x09] @ ''["Month"] = 9,'' @ [CHR 0x0A] @
     CHR 0x09 # ''}, -- end of ["date"]'' @ [CHR 0x0A]\<close>

definition framed_block :: string where
  \<open>framed_block = ''a,'' @ [CHR 0x0A] @ ''["date"]={},'' @ [CHR 0x0A] @ ''b''\<close>

definition crlf_sample :: string where
  \<open>crlf_sample = ''x'' @ [CHR 0x0D, CHR 0x0A] @ ''["start_time"] = 1,'' @ [CHR 0x0A]\<close>

definition mission_sample :: string where
  \<open>mission_sample =
     ''["start_time"] = 100,'' @ [CHR 0x0A] @ ''["name"] = "x",'' @ [CHR 0x0D, CHR 0x0A] @
     ''["start_time"] = 36000,'' @ [CHR 0x0A] @ ''}'' @ [CHR 0x0A]\<close>

text \<open>Template directories with two bad-weather files and one good-weather file.\<close>

definition sample_dirs :: weather_dirs where
  \<open>sample_dirs =
     \<lparr>dir_exists = (\<lambda>d. True),
      candidates = (\<lambda>d. case d of Bad \<Rightarrow> [''storm.config'', ''fog.config''] | Good \<Rightarrow> [''clear.config'']),
      read_template = (\<lambda>f. Some (''-- '' @ f))\<rparr>\<close>

text \<open>
  A configuration with the enabled flag and the bad-weather percentage as given, and
  a run with rotation enabled and a percentage of 50, no archive at the configured
  path, the server running as process 42 and an archive tool that exits with code 1.
\<close>

definition sample_config :: \<open>bool \<Rightarrow> json \<Rightarrow> json\<close> where
  \<open>sample_config enabled percentage =
     JObject [(''weather_rotation_enabled'', JBool enabled),
              (''mission_path'', JString ''C:/Missions/Foo.miz''),
              (''weather_season'', JString ''winter''),
              (''weather_bad_weather_percentage'', percentage)]\<close>

definition sample_world :: weather_world where
  \<open>sample_world =
     \<lparr>miz_exists = False, processes = [(42, Some ''DCS_server.exe'')],
      kill_raises = (\<lambda>p. False), extract_returncode = Some 1,
      mission_extracted = False, mission_text = None, write_raises = False,
      update_returncode = Some 0, popen_raises = False,
      config_json = Parsed (sample_config True (JInt 50)), date_today = (2025, 1, 1), randint = 1,
      choice = 0,
      dirs = \<lparr>dir_exists = (\<lambda>d. False), candidates = (\<lambda>d. []),
              read_template = (\<lambda>f. None)\<rparr>,
      expand = Some\<rparr>\<close>

text \<open>
  The configured mission path as Windows writes it, and a page of the WebGUI that
  shows the configured mission and a negative clock.
\<close>

definition sample_expected :: string where
  \<open>sample_expected = ''c:'' @ [CHR 0x5C] @ ''Missions'' @ [CHR 0x5C] @ ''foo.miz''\<close>

definition sample_page :: webgui where
  \<open>sample_page =
     \<lparr>driver_starts = True, server_detected_elem = Some ''Server detected'',
      connect_clicks = True, mission_elem = Some ''C:/Missions/Foo.miz'',
      time_elem = Some ''-1:00:00''\<rparr>\<close>

section \<open>Lemmas on the loops and helpers\<close>

lemma scan_last_value_append:
  \<open>scan_last_value lst (xs @ ys) = scan_last_value (scan_last_value lst xs) ys\<close>
  by (induction xs arbitrary: lst) simp_all

lemma scan_last_value_skip:
  \<open>\<forall>l \<in> set ls. has_marker l \<longrightarrow> parse_line l = None \<Longrightarrow> scan_last_value lst ls = lst\<close>
  by (induction ls arbitrary: lst) simp_all

lemma scan_last_value_None:
  \<open>scan_last_value lst ls = None \<longleftrightarrow>
     lst = None \<and> (\<forall>l \<in> set ls. has_marker l \<longrightarrow> parse_line l = None)\<close>
  by (induction ls arbitrary: lst) (auto split: option.splits)

lemma scan_last_value_decomp:
  assumes \<open>has_marker l\<close> \<open>parse_line l = Some v\<close>
    and \<open>\<forall>x \<in> set post. has_marker x \<longrightarrow> parse_line x = None\<close>
  shows \<open>scan_last_value lst (pre @ l # post) = Some v\<close>
  using assms by (simp add: scan_last_value_append scan_last_value_skip)

lemma scan_last_index_append:
  \<open>scan_last_index i lst (xs @ ys) =
     scan_last_index (i + length xs) (scan_last_index i lst xs) ys\<close>
  by (induction xs arbitrary: i lst) simp_all

lemma scan_last_index_skip:
  \<open>\<forall>l \<in> set ls. \<not> has_marker l \<Longrightarrow> scan_last_index i lst ls = lst\<close>
  by (induction ls arbitrary: i lst) simp_all

lemma scan_last_index_None:
  \<open>scan_last_index i lst ls = None \<longleftrightarrow> lst = None \<and> (\<forall>l \<in> set ls. \<not> has_marker l)\<close>
  by (induction ls arbitrary: i lst) auto

lemma scan_last_index_Some:
  \<open>scan_last_index i lst ls = Some k \<Longrightarrow>
     (lst = Some k \<and> (\<forall>l \<in> set ls. \<not> has_marker l)) \<or>
     (i \<le> k \<and> k - i < length ls \<and> has_marker (ls ! (k - i)) \<and>
      (\<forall>j. k - i < j \<and> j < length ls \<longrightarrow> \<not> has_marker (ls ! j)))\<close>
proof (induction ls arbitrary: i lst)
  case Nil
  then show ?case by simp
next
  case (Cons l ls)
  let ?lst1 = \<open>if has_marker l then Some i else lst\<close>
  from Cons.prems have step: \<open>scan_last_index (Suc i) ?lst1 ls = Some k\<close> by simp
  from Cons.IH [OF step] consider
      (kept) \<open>?lst1 = Some k\<close> \<open>\<forall>x \<in> set ls. \<not> has_marker x\<close>
    | (later) \<open>Suc i \<le> k\<close> \<open>k - Suc i < length ls\<close> \<open>has_marker (ls ! (k - Suc i))\<close>
        \<open>\<forall>j. k - Suc i < j \<and> j < length ls \<longrightarrow> \<not> has_marker (ls ! j)\<close>
    by blast
  then show ?case
  proof cases
    case kept
    show ?thesis
    proof (cases \<open>has_marker l\<close>)
      case True
      with kept have ki: \<open>k = i\<close> by simp
      have \<open>\<forall>j. 0 < j \<and> j < length (l # ls) \<longrightarrow> \<not> has_marker ((l # ls) ! j)\<close>
        using kept(2) by (auto simp: nth_Cons split: nat.splits)
      with True ki show ?thesis by simp
    next
      case False
      with kept show ?thesis by simp
    qed
  next
    case later
    from later(1) obtain m where m: \<open>k - i = Suc m\<close> \<open>k - Suc i = m\<close>
      by (metis Suc_diff_le diff_Suc_Suc)
    have \<open>\<forall>j. Suc m < j \<and> j < length (l # ls) \<longrightarrow> \<not> has_marker ((l # ls) ! j)\<close>
    proof (intro allI impI)
      fix j assume j: \<open>Suc m < j \<and> j < length (l # ls)\<close>
      then obtain j' where j': \<open>j = Suc j'\<close> by (cases j) auto
      with j later(4) m show \<open>\<not> has_marker ((l # ls) ! j)\<close> by simp
    qed
    with later m show ?thesis by simp
  qed
qed

lemma scan_last_index_last:
  assumes \<open>scan_last_index 0 None ls = Some k\<close>
  shows \<open>k < length ls \<and> has_marker (ls ! k) \<and>
         (\<forall>j. k < j \<and> j < length ls \<longrightarrow> \<not> has_marker (ls ! j))\<close>
  using scan_last_index_Some [OF assms] by simp

lemma parse_at_last_index:
  assumes k: \<open>scan_last_index 0 None ls = Some k\<close> and v: \<open>parse_line (ls ! k) = Some v\<close>
  shows \<open>scan_last_value None ls = Some v\<close>
proof -
  from scan_last_index_last [OF k] have kl: \<open>k < length ls\<close> and mk: \<open>has_marker (ls ! k)\<close>
    and later: \<open>\<forall>j. k < j \<and> j < length ls \<longrightarrow> \<not> has_marker (ls ! j)\<close> by blast+
  from kl have split: \<open>ls = take k ls @ (ls ! k) # drop (Suc k) ls\<close>
    by (simp add: id_take_nth_drop)
  have \<open>\<forall>x \<in> set (drop (Suc k) ls). has_marker x \<longrightarrow> parse_line x = None\<close>
  proof
    fix x assume \<open>x \<in> set (drop (Suc k) ls)\<close>
    then obtain n where n: \<open>n < length (drop (Suc k) ls)\<close> \<open>x = drop (Suc k) ls ! n\<close>
      by (auto simp: in_set_conv_nth)
    then have \<open>x = ls ! (Suc k + n)\<close> \<open>Suc k + n < length ls\<close> by auto
    with later have \<open>\<not> has_marker x\<close> by simp
    then show \<open>has_marker x \<longrightarrow> parse_line x = None\<close> by simp
  qed
  from scan_last_value_decomp [OF mk v this, of None \<open>take k ls\<close>] split
  show ?thesis by simp
qed

lemma stop_first_match_events:
  \<open>e \<in> set (snd (stop_first_match kr ps)) \<Longrightarrow> e \<noteq> ReadMission \<and> e \<noteq> Popen\<close>
  by (induction kr ps rule: stop_first_match.induct) (auto split: if_splits)

lemma kill_events:
  \<open>kill_dcs_server_if_running kr ps = (ok, evs) \<Longrightarrow> ReadMission \<notin> set evs \<and> Popen \<notin> set evs\<close>
  using stop_first_match_events [of ReadMission kr ps] stop_first_match_events [of Popen kr ps]
  by (auto simp: kill_dcs_server_if_running_def split: prod.splits)

lemma update_extract_fails:
  assumes \<open>extract_returncode w = Some rc\<close> \<open>rc \<noteq> 0\<close>
  shows \<open>fst (update_miz_start_time w d) = Returned False \<and>
         ReadMission \<notin> set (snd (update_miz_start_time w d)) \<and>
         Popen \<notin> set (snd (update_miz_start_time w d))\<close>
proof (cases \<open>kill_dcs_server_if_running (kill_raises w) (processes w)\<close>)
  case (Pair ok evs)
  from kill_events [OF Pair] have \<open>ReadMission \<notin> set evs\<close> \<open>Popen \<notin> set evs\<close> by simp_all
  with Pair assms show ?thesis
    by (simp add: update_miz_start_time_def run_7zip_def after_def fail_local_def)
qed

lemma rotate_steps_extract_fails:
  assumes \<open>extract_returncode w = Some rc\<close> \<open>rc \<noteq> 0\<close>
  shows \<open>fst (rotate_steps w season pct) = Returned False \<and>
         ReadMission \<notin> set (snd (rotate_steps w season pct)) \<and>
         Popen \<notin> set (snd (rotate_steps w season pct))\<close>
proof (cases \<open>kill_dcs_server_if_running (kill_raises w) (processes w)\<close>)
  case (Pair ok evs)
  from kill_events [OF Pair] have \<open>ReadMission \<notin> set evs\<close> \<open>Popen \<notin> set evs\<close> by simp_all
  with Pair assms show ?thesis
    by (simp add: rotate_steps_def run_7zip_def after_def fail_local_def)
qed

lemma rotate_shape:
  \<open>(\<exists>season pct. rotate_weather_in_miz w = rotate_steps w season pct) \<or>
   (\<exists>result. rotate_weather_in_miz w = (result, [])) \<or>
   (\<exists>m. rotate_weather_in_miz w = (Returned False, [Notify Error m]))\<close>
proof (cases \<open>config_json w\<close>)
  case Unreadable
  then show ?thesis by (simp add: rotate_weather_in_miz_def fail_local_def)
next
  case (Parsed cfg)
  show ?thesis
  proof (cases \<open>truthy cfg\<close>)
    case False
    with Parsed show ?thesis by (simp add: rotate_weather_in_miz_def fail_local_def)
  next
    case True
    show ?thesis
    proof (cases \<open>\<exists>members. cfg = JObject members\<close>)
      case False
      with Parsed True have \<open>rotate_weather_in_miz w = (Raised, [])\<close>
        by (cases cfg) (simp_all add: rotate_weather_in_miz_def)
      then show ?thesis by blast
    next
      case obj: True
      then obtain members where cfg: \<open>cfg = JObject members\<close> by blast
      let ?path = \<open>dict_get members ''mission_path'' (JString [])\<close>
      let ?pct = \<open>int_of_json (dict_get members ''weather_bad_weather_percentage'' (JInt 0))\<close>
      show ?thesis
      proof (cases \<open>truthy (dict_get members ''weather_rotation_enabled'' (JBool False))\<close>)
        case False
        with Parsed True cfg have \<open>rotate_weather_in_miz w = (Returned True, [])\<close>
          by (simp add: rotate_weather_in_miz_def)
        then show ?thesis by blast
      next
        case enabled: True
        show ?thesis
        proof (cases \<open>truthy ?path\<close>)
          case False
          with Parsed True cfg enabled show ?thesis
            by (simp add: rotate_weather_in_miz_def fail_local_def)
        next
          case path: True
          show ?thesis
          proof (cases ?pct)
            case None
            with Parsed True cfg enabled path
            have \<open>rotate_weather_in_miz w = (Raised, [])\<close>
              by (simp add: rotate_weather_in_miz_def)
            then show ?thesis by blast
          next
            case (Some n)
            show ?thesis
            proof (cases \<open>\<exists>p. ?path = JString p\<close>)
              case False
              with Parsed True cfg enabled path Some
              have \<open>rotate_weather_in_miz w = (Raised, [])\<close>
                by (cases ?path) (simp_all add: rotate_weather_in_miz_def)
              then show ?thesis by blast
            next
              case True
              then obtain p where p: \<open>?path = JString p\<close> by blast
              show ?thesis
              proof (cases \<open>miz_exists w\<close>)
                case False
                with Parsed \<open>truthy cfg\<close> cfg enabled path Some p show ?thesis
                  by (simp add: rotate_weather_in_miz_def fail_local_def)
              next
                case exists: True
                with Parsed \<open>truthy cfg\<close> cfg enabled path Some p
                have \<open>rotate_weather_in_miz w =
                    rotate_steps w (dict_get members ''weather_season'' (JString ''realistic'')) n\<close>
                  by (simp add: rotate_weather_in_miz_def)
                then show ?thesis by blast
              qed
            qed
          qed
        qed
      qed
    qed
  qed
qed

lemma rotate_extract_fails:
  assumes \<open>extract_returncode w = Some rc\<close> \<open>rc \<noteq> 0\<close>
  shows \<open>ReadMission \<notin> set (snd (rotate_weather_in_miz w)) \<and>
         Popen \<notin> set (snd (rotate_weather_in_miz w)) \<and>
         (SevenZip Extract \<in> set (snd (rotate_weather_in_miz w)) \<longrightarrow>
            fst (rotate_weather_in_miz w) = Returned False)\<close>
  using rotate_shape [of w] rotate_steps_extract_fails [OF assms]
  by (elim disjE exE) simp_all

lemma missing_archive_update:
  \<open>\<not> miz_exists w \<Longrightarrow> update_miz_start_time w d = (Returned False, [Notify Error MizNotFound])\<close>
  by (simp add: update_miz_start_time_def fail_local_def)

lemma dict_get_empty: \<open>dict_get [] key dflt = dflt\<close>
  by (simp add: dict_get_def)

lemma rotate_disabled:
  assumes \<open>config_json w = Parsed (JObject members)\<close> and \<open>members \<noteq> []\<close>
    and \<open>\<not> truthy (dict_get members ''weather_rotation_enabled'' (JBool False))\<close>
  shows \<open>rotate_weather_in_miz w = (Returned True, [])\<close>
  using assms by (simp add: rotate_weather_in_miz_def)

lemma missing_archive_rotate:
  assumes \<open>\<not> miz_exists w\<close>
  shows \<open>(\<forall>e \<in> set (snd (rotate_weather_in_miz w)). \<not> process_control e) \<and>
         (config_json w = Parsed (JObject members) \<and>
          truthy (dict_get members ''weather_rotation_enabled'' (JBool False)) \<and>
          dict_get members ''mission_path'' (JString []) = JString path \<and>
          int_of_json (dict_get members ''weather_bad_weather_percentage'' (JInt 0)) = Some n \<longrightarrow>
            rotate_weather_in_miz w =
              (Returned False,
               [Notify Error (if path = [] then MissionPathMissing else MizNotFound)]))\<close>
proof -
  have quiet: \<open>\<forall>e \<in> set (snd (rotate_weather_in_miz w)). \<not> process_control e\<close>
  proof -
    have no_steps: \<open>(\<exists>result. rotate_weather_in_miz w = (result, [])) \<or>
        (\<exists>m. rotate_weather_in_miz w = (Returned False, [Notify Error m]))\<close>
      using assms
      by (auto simp: rotate_weather_in_miz_def fail_local_def Let_def
               split: config_file.splits json.splits option.splits)
    then show ?thesis by (elim disjE exE) simp_all
  qed
  have fails: \<open>config_json w = Parsed (JObject members) \<and>
          truthy (dict_get members ''weather_rotation_enabled'' (JBool False)) \<and>
          dict_get members ''mission_path'' (JString []) = JString path \<and>
          int_of_json (dict_get members ''weather_bad_weather_percentage'' (JInt 0)) = Some n \<longrightarrow>
            rotate_weather_in_miz w =
              (Returned False,
               [Notify Error (if path = [] then MissionPathMissing else MizNotFound)])\<close>
  proof
    assume h: \<open>config_json w = Parsed (JObject members) \<and>
          truthy (dict_get members ''weather_rotation_enabled'' (JBool False)) \<and>
          dict_get members ''mission_path'' (JString []) = JString path \<and>
          int_of_json (dict_get members ''weather_bad_weather_percentage'' (JInt 0)) = Some n\<close>
    then have \<open>members \<noteq> []\<close> using dict_get_empty by fastforce
    with h assms show \<open>rotate_weather_in_miz w =
              (Returned False,
               [Notify Error (if path = [] then MissionPathMissing else MizNotFound)])\<close>
      by (simp add: rotate_weather_in_miz_def fail_local_def)
  qed
  from quiet fails show ?thesis by blast
qed

lemma stop_first_match_none:
  \<open>\<forall>q \<in> set ps. \<not> names_server (snd q) \<Longrightarrow> stop_first_match kr ps = (True, [])\<close>
  by (induction kr ps rule: stop_first_match.induct) auto

lemma stop_first_match_first:
  assumes \<open>\<forall>q \<in> set pre. \<not> names_server (snd q)\<close> \<open>names_server nm\<close>
  shows \<open>stop_first_match kr (pre @ (p, nm) # post) =
           (\<not> kr p, [Notify Info ServerStopped, Kill p,
                      if kr p then Notify Error StopFailed else Sleep 15])\<close>
  using assms by (induction pre) auto

lemma first_match_split:
  \<open>\<exists>q \<in> set ps. names_server (snd q) \<Longrightarrow>
     \<exists>pre p nm post. ps = pre @ (p, nm) # post \<and> names_server nm \<and>
        (\<forall>q \<in> set pre. \<not> names_server (snd q))\<close>
proof (induction ps)
  case Nil
  then show ?case by simp
next
  case (Cons a ps)
  show ?case
  proof (cases \<open>names_server (snd a)\<close>)
    case True
    then have \<open>a # ps = [] @ (fst a, snd a) # ps \<and> names_server (snd a) \<and>
        (\<forall>q \<in> set []. \<not> names_server (snd q))\<close> by simp
    then show ?thesis by blast
  next
    case False
    with Cons.prems have \<open>\<exists>q \<in> set ps. names_server (snd q)\<close> by auto
    from Cons.IH [OF this] obtain pre p nm post where
      \<open>ps = pre @ (p, nm) # post\<close> \<open>names_server nm\<close> \<open>\<forall>q \<in> set pre. \<not> names_server (snd q)\<close>
      by blast
    with False have \<open>a # ps = (a # pre) @ (p, nm) # post \<and> names_server nm \<and>
        (\<forall>q \<in> set (a # pre). \<not> names_server (snd q))\<close> by simp
    then show ?thesis by blast
  qed
qed

lemma digit_val_nonneg: \<open>is_digit c \<Longrightarrow> 0 \<le> digit_val c\<close>
  by (auto simp: is_digit_def digit_val_def)

lemma int_body_nonneg: \<open>int_body acc prev cs = Some n \<Longrightarrow> 0 \<le> acc \<Longrightarrow> 0 \<le> n\<close>
proof (induction cs arbitrary: acc prev)
  case Nil
  then show ?case by (simp split: if_splits)
next
  case (Cons c cs)
  show ?case
  proof (cases \<open>is_digit c\<close>)
    case True
    with Cons.prems(1) have \<open>int_body (acc * 10 + digit_val c) True cs = Some n\<close> by simp
    moreover from True Cons.prems(2) have \<open>0 \<le> acc * 10 + digit_val c\<close>
      using digit_val_nonneg [of c] by simp
    ultimately show ?thesis by (rule Cons.IH)
  next
    case False
    with Cons.prems(1) have \<open>int_body acc False cs = Some n\<close> by (simp split: if_splits)
    then show ?thesis using Cons.prems(2) by (rule Cons.IH)
  qed
qed

lemma set_int_strip: \<open>set (int_strip s) \<subseteq> set s\<close>
proof -
  have \<open>set (int_strip s) = set (dropWhile int_isspace (rev (dropWhile int_isspace s)))\<close>
    by (simp add: int_strip_def)
  also have \<open>\<dots> \<subseteq> set (rev (dropWhile int_isspace s))\<close> by (rule set_dropWhileD [THEN subsetI])
  also have \<open>\<dots> \<subseteq> set s\<close> using set_dropWhileD [of _ int_isspace s] by auto
  finally show ?thesis .
qed

lemma py_int_nonneg:
  assumes \<open>py_int s = Some n\<close> \<open>CHR ''-'' \<notin> set s\<close>
  shows \<open>0 \<le> n\<close>
proof (cases \<open>int_strip s\<close>)
  case Nil
  with assms(1) show ?thesis by (simp add: py_int_def)
next
  case (Cons c cs)
  from set_int_strip [of s] Cons assms(2) have \<open>c \<noteq> CHR ''-''\<close> by auto
  with Cons assms(1) have \<open>int_body 0 False cs = Some n \<or> int_body 0 False (c # cs) = Some n\<close>
    by (simp add: py_int_def split: if_splits)
  then show ?thesis
  proof
    assume \<open>int_body 0 False cs = Some n\<close>
    then show ?thesis by (rule int_body_nonneg) simp
  next
    assume \<open>int_body 0 False (c # cs) = Some n\<close>
    then show ?thesis by (rule int_body_nonneg) simp
  qed
qed

lemma set_split_on: \<open>p \<in> set (split_on sep s) \<Longrightarrow> set p \<subseteq> set s\<close>
proof (induction s arbitrary: p)
  case Nil
  then show ?case by simp
next
  case (Cons c cs)
  show ?case
  proof (cases \<open>c = sep\<close>)
    case True
    with Cons.prems have \<open>p = [] \<or> p \<in> set (split_on sep cs)\<close> by simp
    with Cons.IH show ?thesis by auto
  next
    case False
    show ?thesis
    proof (cases \<open>split_on sep cs\<close>)
      case Nil
      with False Cons.prems show ?thesis by simp
    next
      case (Cons q qs)
      with False Cons.prems have \<open>p = c # q \<or> p \<in> set qs\<close> by simp
      moreover have \<open>set q \<subseteq> set cs\<close> using Cons.IH [of q] Cons by simp
      moreover have \<open>p \<in> set qs \<Longrightarrow> set p \<subseteq> set cs\<close> using Cons.IH [of p] Cons by simp
      ultimately show ?thesis by auto
    qed
  qed
qed

lemma convert_nonneg:
  assumes \<open>CHR ''-'' \<notin> set hms\<close>
  shows \<open>0 \<le> convert_hms_to_seconds hms\<close>
proof -
  have part: \<open>\<And>p n. p \<in> set (split_on (CHR '':'') hms) \<Longrightarrow> py_int p = Some n \<Longrightarrow> 0 \<le> n\<close>
    using set_split_on [of _ \<open>CHR '':''\<close> hms] assms py_int_nonneg by blast
  show ?thesis
  proof (cases \<open>\<exists>h m s. split_on (CHR '':'') hms = [h, m, s]\<close>)
    case True
    then obtain h m s where sp: \<open>split_on (CHR '':'') hms = [h, m, s]\<close> by blast
    show ?thesis
    proof (cases \<open>\<exists>a b c. py_int h = Some a \<and> py_int m = Some b \<and> py_int s = Some c\<close>)
      case True
      then obtain a b c where abc: \<open>py_int h = Some a\<close> \<open>py_int m = Some b\<close> \<open>py_int s = Some c\<close>
        by blast
      from part [of h a] part [of m b] part [of s c] sp abc
      have \<open>0 \<le> a\<close> \<open>0 \<le> b\<close> \<open>0 \<le> c\<close> by simp_all
      with sp abc show ?thesis by (simp add: convert_hms_to_seconds_def)
    next
      case False
      with sp show ?thesis
        by (auto simp: convert_hms_to_seconds_def split: option.splits)
    qed
  next
    case False
    then show ?thesis
      by (auto simp: convert_hms_to_seconds_def split: list.splits)
  qed
qed

lemma extract_matched:
  assumes \<open>fst (extract_time_and_mission page expected)\<close>
  shows \<open>\<exists>t. extract_time_and_mission page expected =
           (True, Some t, Some (convert_hms_to_seconds t))\<close>
  using assms
  by (auto simp: extract_time_and_mission_def Let_def split: if_splits option.splits)

section \<open>Lemmas on lines\<close>

lemma splitlines_from_line:
  \<open>no_break l \<Longrightarrow> splitlines_from cur (l @ rest) = splitlines_from (cur @ l) rest\<close>
proof (induction l arbitrary: cur)
  case Nil
  then show ?case by simp
next
  case (Cons c l)
  then have c: \<open>\<not> is_linebreak c\<close> and l: \<open>no_break l\<close> by (simp_all add: no_break_def)
  from c have \<open>c \<noteq> CHR 0x0D\<close> by (auto simp: is_linebreak_def)
  with c Cons.IH [OF l, of \<open>cur @ [c]\<close>] show ?case by simp
qed

lemma splitlines_from_newline:
  \<open>splitlines_from cur (CHR 0x0A # rest) = cur # splitlines_from [] rest\<close>
  by (simp add: is_linebreak_def)

lemma splitlines_from_no_break:
  \<open>no_break cur \<Longrightarrow> l \<in> set (splitlines_from cur s) \<Longrightarrow> no_break l\<close>
proof (induction cur s rule: splitlines_from.induct)
  case (1 cur)
  then show ?case by (simp split: if_splits)
next
  case (2 cur c cs)
  have e: \<open>no_break []\<close> by (simp add: no_break_def)
  show ?case
  proof (cases \<open>c = CHR 0x0D\<close>)
    case True
    show ?thesis
    proof (cases cs)
      case Nil
      with True 2 e show ?thesis by auto
    next
      case (Cons d ds)
      with True 2 e show ?thesis by (cases \<open>d = CHR 0x0A\<close>) auto
    qed
  next
    case False
    show ?thesis
    proof (cases \<open>is_linebreak c\<close>)
      case True
      with False 2 e show ?thesis by auto
    next
      case nb: False
      with "2.prems"(1) have \<open>no_break (cur @ [c])\<close> by (simp add: no_break_def)
      with False nb "2.IH"(5) "2.prems"(2) show ?thesis by simp
    qed
  qed
qed

lemma splitlines_no_break: \<open>l \<in> set (splitlines s) \<Longrightarrow> no_break l\<close>
  unfolding splitlines_def by (rule splitlines_from_no_break [of \<open>[]\<close>]) (simp_all add: no_break_def)

lemma splitlines_from_join:
  \<open>list_all no_break (l # ls) \<Longrightarrow>
     splitlines_from cur (join_lines (l # ls)) =
       (if last ((cur @ l) # ls) = [] then butlast ((cur @ l) # ls) else (cur @ l) # ls)\<close>
proof (induction ls arbitrary: cur l)
  case Nil
  then have \<open>no_break l\<close> by simp
  from splitlines_from_line [OF this, of cur \<open>[]\<close>] show ?case by simp
next
  case (Cons m ms)
  then have l: \<open>no_break l\<close> and rest: \<open>list_all no_break (m # ms)\<close> by simp_all
  have \<open>splitlines_from cur (join_lines (l # m # ms)) =
      splitlines_from (cur @ l) (CHR 0x0A # join_lines (m # ms))\<close>
    using splitlines_from_line [OF l] by simp
  also have \<open>\<dots> = (cur @ l) # splitlines_from [] (join_lines (m # ms))\<close>
    by (rule splitlines_from_newline)
  also have \<open>splitlines_from [] (join_lines (m # ms)) =
      (if last (m # ms) = [] then butlast (m # ms) else m # ms)\<close>
    using Cons.IH [OF rest, of \<open>[]\<close>] by simp
  finally show ?case by simp
qed

lemma splitlines_join:
  assumes \<open>list_all no_break ls\<close> \<open>ls \<noteq> []\<close>
  shows \<open>splitlines (join_lines ls) = (if last ls = [] then butlast ls else ls)\<close>
proof -
  from assms(2) obtain l ms where ls: \<open>ls = l # ms\<close> by (cases ls) auto
  with assms(1) splitlines_from_join [of l ms \<open>[]\<close>] show ?thesis
    by (simp add: splitlines_def)
qed

lemma str_of_nat_digits: \<open>set (str_of_nat n) \<subseteq> set ''0123456789''\<close>
proof (induction n rule: str_of_nat.induct)
  case (1 n)
  have d: \<open>\<And>m. m < 10 \<Longrightarrow> ''0123456789'' ! m \<in> set ''0123456789''\<close>
    by (rule nth_mem) simp
  show ?case
  proof (cases \<open>n < 10\<close>)
    case True
    with d [of n] show ?thesis by (subst str_of_nat.simps) simp
  next
    case False
    have \<open>n mod 10 < 10\<close> by simp
    from d [OF this] 1 [OF False] False show ?thesis
      by (subst str_of_nat.simps) simp
  qed
qed

lemma no_break_start_time_line: \<open>no_break (start_time_line v)\<close>
proof -
  have \<open>\<And>c. c \<in> set ''0123456789'' \<Longrightarrow> \<not> is_linebreak c\<close>
    by (auto simp: is_linebreak_def)
  with str_of_nat_digits have \<open>\<And>n. list_all (\<lambda>c. \<not> is_linebreak c) (str_of_nat n)\<close>
    unfolding list_all_iff by blast
  then show ?thesis
    by (simp add: no_break_def start_time_line_def str_of_int_def is_linebreak_def)
qed

lemma start_time_line_not_empty: \<open>start_time_line v \<noteq> []\<close>
  by (simp add: start_time_line_def)

lemma resplit_update:
  assumes k: \<open>k < length L\<close> and nb: \<open>list_all no_break L\<close> and c: \<open>no_break c\<close> and ne: \<open>c \<noteq> []\<close>
  defines \<open>L' \<equiv> splitlines (join_lines (L[k := c]))\<close>
  shows \<open>k < length L' \<and> L' ! k = c \<and> length L' \<le> length L \<and>
         (\<forall>i < length L'. i \<noteq> k \<longrightarrow> L' ! i = L ! i) \<and>
         (\<forall>i. length L' \<le> i \<and> i < length L \<longrightarrow> L ! i = [])\<close>
proof -
  let ?M = \<open>L[k := c]\<close>
  from k have Mne: \<open>?M \<noteq> []\<close> by auto
  from nb c have Mnb: \<open>list_all no_break ?M\<close>
    unfolding list_all_iff using set_update_subset_insert [of L k c] by auto
  from splitlines_join [OF Mnb Mne]
  have L': \<open>L' = (if last ?M = [] then butlast ?M else ?M)\<close> by (simp add: L'_def)
  show ?thesis
  proof (cases \<open>last ?M = []\<close>)
    case False
    with L' k show ?thesis by auto
  next
    case True
    with L' have eq: \<open>L' = butlast ?M\<close> by simp
    from True Mne have lastM: \<open>?M ! (length L - 1) = []\<close>
      by (simp add: last_conv_nth)
    have kk: \<open>k \<noteq> length L - 1\<close>
    proof
      assume \<open>k = length L - 1\<close>
      with lastM k have \<open>c = []\<close> by simp
      with ne show False by simp
    qed
    with k have klt: \<open>k < length L - 1\<close> by simp
    have len: \<open>length L' = length L - 1\<close> using eq by simp
    have a: \<open>L' ! k = c\<close> using eq klt k by (simp add: nth_butlast)
    have b: \<open>\<forall>i < length L'. i \<noteq> k \<longrightarrow> L' ! i = L ! i\<close>
      using eq len by (simp add: nth_butlast)
    have d: \<open>\<forall>i. length L' \<le> i \<and> i < length L \<longrightarrow> L ! i = []\<close>
    proof (intro allI impI)
      fix i assume \<open>length L' \<le> i \<and> i < length L\<close>
      with len have \<open>i = length L - 1\<close> by arith
      with lastM kk show \<open>L ! i = []\<close> by simp
    qed
    from klt len a b d show ?thesis by simp
  qed
qed

section \<open>Lemmas on the matcher\<close>

lemma py_in_iff: \<open>py_in sub s \<longleftrightarrow> (\<exists>i. prefix sub (drop i s))\<close>
proof (induction s)
  case Nil
  then show ?case by simp
next
  case (Cons c cs)
  show ?case
  proof
    assume \<open>py_in sub (c # cs)\<close>
    then consider \<open>prefix sub (c # cs)\<close> | \<open>py_in sub cs\<close> by auto
    then show \<open>\<exists>i. prefix sub (drop i (c # cs))\<close>
    proof cases
      case 1
      then have \<open>prefix sub (drop 0 (c # cs))\<close> by simp
      then show ?thesis by blast
    next
      case 2
      with Cons.IH obtain i where \<open>prefix sub (drop i cs)\<close> by blast
      then have \<open>prefix sub (drop (Suc i) (c # cs))\<close> by simp
      then show ?thesis by blast
    qed
  next
    assume \<open>\<exists>i. prefix sub (drop i (c # cs))\<close>
    then obtain i where i: \<open>prefix sub (drop i (c # cs))\<close> by blast
    show \<open>py_in sub (c # cs)\<close>
    proof (cases i)
      case 0
      with i show ?thesis by simp
    next
      case (Suc j)
      with i have \<open>prefix sub (drop j cs)\<close> by simp
      with Cons.IH show ?thesis by auto
    qed
  qed
qed

lemma re_match_star:
  assumes \<open>list_all (in_cls k) w\<close> and \<open>s = [] \<or> \<not> in_cls k (hd s)\<close>
    and \<open>re_match r s = Some t\<close>
  shows \<open>re_match (Star k # r) (w @ s) = Some t\<close>
  using assms(1)
proof (induction w)
  case Nil
  from assms(2,3) show ?case by (cases s) simp_all
next
  case (Cons c w)
  then show ?case by simp
qed

lemma re_match_lazy:
  assumes \<open>\<forall>i < length b. re_match r (drop i b @ s) = None\<close> and \<open>re_match r s = Some t\<close>
  shows \<open>re_match (Lazy AnyChar # r) (b @ s) = Some t\<close>
  using assms(1)
proof (induction b)
  case Nil
  from assms(2) show ?case by (cases s) simp_all
next
  case (Cons c b)
  from Cons.prems have now: \<open>re_match r (c # b @ s) = None\<close> by force
  have \<open>\<forall>i < length b. re_match r (drop i b @ s) = None\<close>
  proof (intro allI impI)
    fix i assume \<open>i < length b\<close>
    then have \<open>Suc i < length (c # b)\<close> by simp
    with Cons.prems have \<open>re_match r (drop (Suc i) (c # b) @ s) = None\<close> by blast
    then show \<open>re_match r (drop i b @ s) = None\<close> by simp
  qed
  from Cons.IH [OF this] now show ?case by simp
qed

lemma re_match_star_lit_prefix:
  \<open>re_match (Star Space # Lit l # r) s = Some t \<Longrightarrow> l \<noteq> [] \<Longrightarrow>
     \<exists>w. list_all py_isspace w \<and> prefix (w @ l) s\<close>
proof (induction s arbitrary: t)
  case Nil
  then show ?case by simp
next
  case (Cons c cs)
  show ?case
  proof (cases \<open>py_isspace c \<and> re_match (Star Space # Lit l # r) cs \<noteq> None\<close>)
    case True
    then obtain t' where \<open>re_match (Star Space # Lit l # r) cs = Some t'\<close> by blast
    from Cons.IH [OF this Cons.prems(2)] obtain w where
      w: \<open>list_all py_isspace w\<close> \<open>prefix (w @ l) cs\<close> by blast
    with True have \<open>list_all py_isspace (c # w) \<and> prefix ((c # w) @ l) (c # cs)\<close> by simp
    then show ?thesis by blast
  next
    case False
    with Cons.prems(1) have \<open>re_match (Lit l # r) (c # cs) = Some t\<close>
      by (auto split: if_splits option.splits)
    then have \<open>prefix l (c # cs)\<close> by (simp split: if_splits)
    then have \<open>list_all py_isspace [] \<and> prefix ([] @ l) (c # cs)\<close> by simp
    then show ?thesis by blast
  qed
qed

lemma re_search_first:
  assumes \<open>\<forall>i < length pre. re_match p (drop i pre @ rest) = None\<close>
    and \<open>re_match p rest = Some t\<close>
  shows \<open>re_search p (pre @ rest) = Some (pre, t)\<close>
  using assms(1)
proof (induction pre)
  case Nil
  from assms(2) show ?case by (cases rest) simp_all
next
  case (Cons c pre)
  from Cons.prems have now: \<open>re_match p (c # pre @ rest) = None\<close> by force
  have \<open>\<forall>i < length pre. re_match p (drop i pre @ rest) = None\<close>
  proof (intro allI impI)
    fix i assume \<open>i < length pre\<close>
    then have \<open>Suc i < length (c # pre)\<close> by simp
    with Cons.prems have \<open>re_match p (drop (Suc i) (c # pre) @ rest) = None\<close> by blast
    then show \<open>re_match p (drop i pre @ rest) = None\<close> by simp
  qed
  from Cons.IH [OF this] now show ?case by simp
qed

lemma re_search_None:
  \<open>re_search p s = None \<longleftrightarrow> (\<forall>i \<le> length s. re_match p (drop i s) = None)\<close>
proof (induction s)
  case Nil
  then show ?case by simp
next
  case (Cons c cs)
  have \<open>(\<forall>i \<le> length (c # cs). re_match p (drop i (c # cs)) = None) \<longleftrightarrow>
        re_match p (c # cs) = None \<and> (\<forall>i \<le> length cs. re_match p (drop i cs) = None)\<close>
  proof
    assume a: \<open>\<forall>i \<le> length (c # cs). re_match p (drop i (c # cs)) = None\<close>
    then have \<open>re_match p (drop 0 (c # cs)) = None\<close> by blast
    moreover have \<open>\<forall>i \<le> length cs. re_match p (drop i cs) = None\<close>
    proof (intro allI impI)
      fix i assume \<open>i \<le> length cs\<close>
      then have \<open>Suc i \<le> length (c # cs)\<close> by simp
      with a have \<open>re_match p (drop (Suc i) (c # cs)) = None\<close> by blast
      then show \<open>re_match p (drop i cs) = None\<close> by simp
    qed
    ultimately show \<open>re_match p (c # cs) = None \<and> (\<forall>i \<le> length cs. re_match p (drop i cs) = None)\<close>
      by simp
  next
    assume a: \<open>re_match p (c # cs) = None \<and> (\<forall>i \<le> length cs. re_match p (drop i cs) = None)\<close>
    show \<open>\<forall>i \<le> length (c # cs). re_match p (drop i (c # cs)) = None\<close>
    proof (intro allI impI)
      fix i assume i: \<open>i \<le> length (c # cs)\<close>
      show \<open>re_match p (drop i (c # cs)) = None\<close>
      proof (cases i)
        case 0
        with a show ?thesis by simp
      next
        case (Suc j)
        with i a show ?thesis by simp
      qed
    qed
  qed
  with Cons.IH show ?case by (auto split: option.splits)
qed

lemma re_search_Some:
  \<open>re_search p s = Some (b, t) \<Longrightarrow>
     prefix b s \<and> re_match p (drop (length b) s) = Some t \<and>
     (\<forall>i < length b. re_match p (drop i s) = None)\<close>
proof (induction s arbitrary: b)
  case Nil
  then show ?case by auto
next
  case (Cons c cs)
  show ?case
  proof (cases \<open>re_match p (c # cs)\<close>)
    case (Some t')
    with Cons.prems show ?thesis by simp
  next
    case None
    with Cons.prems obtain b' where b': \<open>re_search p cs = Some (b', t)\<close> \<open>b = c # b'\<close>
      by (auto split: option.splits)
    from Cons.IH [OF b'(1)] have ih: \<open>prefix b' cs\<close>
      \<open>re_match p (drop (length b') cs) = Some t\<close>
      \<open>\<forall>i < length b'. re_match p (drop i cs) = None\<close> by blast+
    have \<open>\<forall>i < length b. re_match p (drop i (c # cs)) = None\<close>
    proof (intro allI impI)
      fix i assume i: \<open>i < length b\<close>
      show \<open>re_match p (drop i (c # cs)) = None\<close>
      proof (cases i)
        case 0
        with None show ?thesis by simp
      next
        case (Suc j)
        with i b'(2) ih(3) show ?thesis by simp
      qed
    qed
    with ih b'(2) show ?thesis by simp
  qed
qed

lemma re_match_suffix: \<open>re_match p s = Some t \<Longrightarrow> suffix t s\<close>
proof (induction p s arbitrary: t rule: re_match.induct)
  case (1 s)
  then show ?case by simp
next
  case (2 l r s)
  then have \<open>suffix t (drop (length l) s)\<close> by (auto split: if_splits)
  then show ?case using suffix_drop suffix_order.trans by blast
next
  case (3 k r)
  then show ?case by simp
next
  case (4 k r c cs)
  show ?case
  proof (cases \<open>in_cls k c \<and> re_match (Star k # r) cs \<noteq> None\<close>)
    case True
    then obtain t' where t': \<open>re_match (Star k # r) cs = Some t'\<close> by blast
    with True "4.prems" have \<open>t = t'\<close> by simp
    with True t' "4.IH"(1) have \<open>suffix t cs\<close> by simp
    then show ?thesis by (simp add: suffix_Cons)
  next
    case False
    with "4.prems" have m: \<open>re_match r (c # cs) = Some t\<close>
      by (auto split: if_splits option.splits)
    show ?thesis
    proof (cases \<open>in_cls k c\<close>)
      case True
      with False have \<open>re_match (Star k # r) cs = None\<close> by simp
      with True m "4.IH"(2) show ?thesis by simp
    next
      case nk: False
      with m "4.IH"(3) show ?thesis by simp
    qed
  qed
next
  case (5 k r)
  then show ?case by simp
next
  case (6 k r c cs)
  show ?case
  proof (cases \<open>re_match r (c # cs)\<close>)
    case (Some t')
    with "6.prems" have \<open>t = t'\<close> by simp
    with Some "6.IH"(1) show ?thesis by simp
  next
    case None
    with "6.prems" have k: \<open>in_cls k c\<close> and m: \<open>re_match (Lazy k # r) cs = Some t\<close>
      by (auto split: if_splits)
    from "6.IH"(2) [OF None k m] show ?thesis by (simp add: suffix_Cons)
  qed
next
  case (7 g r s)
  show ?case
  proof (cases \<open>re_match (g @ r) s\<close>)
    case (Some t')
    with "7.prems" have \<open>t = t'\<close> by simp
    with Some "7.IH"(1) show ?thesis by simp
  next
    case None
    with "7.prems" have \<open>re_match r s = Some t\<close> by simp
    from "7.IH"(2) [OF None this] show ?thesis .
  qed
qed

lemma re_match_spaces:
  assumes \<open>list_all py_isspace w\<close> and \<open>s = [] \<or> \<not> py_isspace (hd s)\<close>
    and \<open>re_match r s = Some t\<close>
  shows \<open>re_match (Star Space # r) (w @ s) = Some t\<close>
proof -
  have \<open>in_cls Space = py_isspace\<close> by (rule ext) simp
  with assms re_match_star [of Space w s r t] show ?thesis by simp
qed

lemma tail_plain:
  assumes \<open>list_all py_isspace ws3\<close> and \<open>post = [] \<or> \<not> py_isspace (hd post)\<close>
    and \<open>\<not> prefix ''--'' post\<close>
  shows \<open>re_match [Star Space, Opt end_marker_group] (ws3 @ post) = Some post\<close>
proof -
  from assms(3) have \<open>re_match (end_marker_group @ []) post = None\<close>
    by (simp add: end_marker_group_def)
  then have \<open>re_match [Opt end_marker_group] post = Some post\<close> by simp
  with assms(1,2) show ?thesis by (intro re_match_spaces) simp_all
qed

lemma tail_comment:
  assumes \<open>list_all py_isspace ws3\<close> and \<open>list_all py_isspace ws4\<close>
  shows \<open>re_match [Star Space, Opt end_marker_group] (ws3 @ end_marker ws4 @ post) = Some post\<close>
proof -
  have e: \<open>re_match [Lit ''end of ["date"]''] (''end of ["date"]'' @ post) = Some post\<close>
    by simp
  have \<open>re_match [Star Space, Lit ''end of ["date"]''] (ws4 @ ''end of ["date"]'' @ post) = Some post\<close>
    using assms(2) e by (intro re_match_spaces) (simp_all add: py_isspace_def)
  then have \<open>re_match (end_marker_group @ []) (end_marker ws4 @ post) = Some post\<close>
    by (simp add: end_marker_group_def end_marker_def)
  then have o: \<open>re_match [Opt end_marker_group] (end_marker ws4 @ post) = Some post\<close> by simp
  have \<open>\<not> py_isspace (hd (end_marker ws4 @ post))\<close>
    by (simp add: end_marker_def py_isspace_def)
  with assms(1) o show ?thesis by (intro re_match_spaces) simp_all
qed

lemma close_only_at_end:
  assumes \<open>\<not> py_in ''},'' (body @ ''}'')\<close>
  shows \<open>\<forall>i < length body. re_match (Lit ''},'' # r) (drop i body @ ''},'' @ rest) = None\<close>
proof (intro allI impI)
  fix i assume i: \<open>i < length body\<close>
  have \<open>\<not> prefix ''},'' (drop i body @ ''},'' @ rest)\<close>
  proof
    assume p: \<open>prefix ''},'' (drop i body @ ''},'' @ rest)\<close>
    have q: \<open>prefix (drop i body @ ''}'') (drop i body @ ''},'' @ rest)\<close> by simp
    from i have \<open>length ''},'' \<le> length (drop i body @ ''}'')\<close> by simp
    from prefix_length_prefix [OF p q this] i
    have \<open>prefix ''},'' (drop i (body @ ''}''))\<close> by simp
    with assms show False unfolding py_in_iff by blast
  qed
  then show \<open>re_match (Lit ''},'' # r) (drop i body @ ''},'' @ rest) = None\<close> by simp
qed

lemma core_match:
  assumes \<open>list_all py_isspace ws0\<close> \<open>list_all py_isspace ws1\<close> \<open>list_all py_isspace ws2\<close>
    and \<open>\<not> py_in ''},'' (body @ ''}'')\<close>
    and \<open>re_match [Star Space, Opt end_marker_group] rest = Some post\<close>
  shows \<open>re_match date_pattern
           (ws0 @ ''["date"]'' @ ws1 @ ''='' @ ws2 @ ''{'' @ body @ ''},'' @ rest) = Some post\<close>
proof -
  let ?tail = \<open>[Star Space, Opt end_marker_group]\<close>
  have m8: \<open>re_match (Lit ''},'' # ?tail) (''},'' @ rest) = Some post\<close>
    using assms(5) by simp
  have m7: \<open>re_match (Lazy AnyChar # Lit ''},'' # ?tail) (body @ ''},'' @ rest) = Some post\<close>
    using close_only_at_end [OF assms(4)] m8 by (intro re_match_lazy) blast+
  have m6: \<open>re_match (Lit ''{'' # Lazy AnyChar # Lit ''},'' # ?tail)
      (''{'' @ body @ ''},'' @ rest) = Some post\<close>
    using m7 by simp
  have m5: \<open>re_match (Star Space # Lit ''{'' # Lazy AnyChar # Lit ''},'' # ?tail)
      (ws2 @ ''{'' @ body @ ''},'' @ rest) = Some post\<close>
    using assms(3) m6 by (intro re_match_spaces) (simp_all add: py_isspace_def)
  have m4: \<open>re_match (Lit ''='' # Star Space # Lit ''{'' # Lazy AnyChar # Lit ''},'' # ?tail)
      (''='' @ ws2 @ ''{'' @ body @ ''},'' @ rest) = Some post\<close>
    using m5 by simp
  have m3: \<open>re_match (Star Space # Lit ''='' # Star Space # Lit ''{'' # Lazy AnyChar #
        Lit ''},'' # ?tail)
      (ws1 @ ''='' @ ws2 @ ''{'' @ body @ ''},'' @ rest) = Some post\<close>
    using assms(2) m4 by (intro re_match_spaces) (simp_all add: py_isspace_def)
  have m2: \<open>re_match (Lit ''["date"]'' # Star Space # Lit ''='' # Star Space # Lit ''{'' #
        Lazy AnyChar # Lit ''},'' # ?tail)
      (''["date"]'' @ ws1 @ ''='' @ ws2 @ ''{'' @ body @ ''},'' @ rest) = Some post\<close>
    using m3 by simp
  have m1: \<open>re_match (Star Space # Lit ''["date"]'' # Star Space # Lit ''='' # Star Space #
        Lit ''{'' # Lazy AnyChar # Lit ''},'' # ?tail)
      (ws0 @ ''["date"]'' @ ws1 @ ''='' @ ws2 @ ''{'' @ body @ ''},'' @ rest) = Some post\<close>
    using assms(1) m2 by (intro re_match_spaces) (simp_all add: py_isspace_def)
  then show ?thesis by (simp add: date_pattern_def)
qed

lemma nothing_earlier:
  assumes \<open>pre = [] \<or> \<not> py_isspace (last pre)\<close>
    and \<open>\<not> py_in ''["date"]'' (pre @ ws0 @ ''["date"'')\<close>
  shows \<open>\<forall>i < length pre. re_match date_pattern (drop i pre @ ws0 @ ''["date"]'' @ rest) = None\<close>
proof (intro allI impI)
  fix i assume i: \<open>i < length pre\<close>
  let ?X = \<open>drop i pre\<close>
  let ?Z = \<open>ws0 @ ''["date"]'' @ rest\<close>
  from i have Xne: \<open>?X \<noteq> []\<close> by simp
  from i assms(1) have lastX: \<open>\<not> py_isspace (last ?X)\<close> by auto
  show \<open>re_match date_pattern (?X @ ?Z) = None\<close>
  proof (rule ccontr)
    assume \<open>re_match date_pattern (?X @ ?Z) \<noteq> None\<close>
    then obtain t where \<open>re_match date_pattern (?X @ ?Z) = Some t\<close> by blast
    then have \<open>re_match (Star Space # Lit ''["date"]'' # tl (tl date_pattern)) (?X @ ?Z) = Some t\<close>
      by (simp add: date_pattern_def)
    from re_match_star_lit_prefix [OF this] obtain w where
      w: \<open>list_all py_isspace w\<close> and p: \<open>prefix (w @ ''["date"]'') (?X @ ?Z)\<close> by auto
    show False
    proof (cases \<open>length ?X \<le> length w\<close>)
      case True
      have pw: \<open>prefix w (?X @ ?Z)\<close> using p by (rule append_prefixD)
      have px: \<open>prefix ?X (?X @ ?Z)\<close> by simp
      from px pw True have \<open>prefix ?X w\<close> by (rule prefix_length_prefix)
      then have sub: \<open>set ?X \<subseteq> set w\<close> by (rule set_mono_prefix)
      from Xne have \<open>last ?X \<in> set ?X\<close> by (rule last_in_set)
      with sub have \<open>last ?X \<in> set w\<close> by blast
      with w have \<open>py_isspace (last ?X)\<close> by (simp add: list_all_iff)
      with lastX show False by simp
    next
      case False
      then have lw: \<open>length w < length ?X\<close> by simp
      let ?Y = \<open>drop (length w) ?X\<close>
      from lw have Yne: \<open>?Y \<noteq> []\<close> by simp
      from p obtain zs where zs: \<open>?X @ ?Z = (w @ ''["date"]'') @ zs\<close>
        unfolding prefix_def by blast
      have \<open>drop (length w) (?X @ ?Z) = ''["date"]'' @ zs\<close>
        by (subst zs) simp
      then have \<open>prefix ''["date"]'' (drop (length w) (?X @ ?Z))\<close>
        by (simp only: prefixI)
      with lw have a: \<open>prefix ''["date"]'' (?Y @ ws0 @ ''["date"'' @ '']'' @ rest)\<close> by simp
      have b: \<open>prefix (?Y @ ws0 @ ''["date"'') (?Y @ ws0 @ ''["date"'' @ '']'' @ rest)\<close> by simp
      from Yne have \<open>length ''["date"]'' \<le> length (?Y @ ws0 @ ''["date"'')\<close>
        by (cases ?Y) simp_all
      from prefix_length_prefix [OF a b this]
      have \<open>prefix ''["date"]'' (?Y @ ws0 @ ''["date"'')\<close> .
      moreover from lw i have \<open>?Y @ ws0 @ ''["date"'' = drop (i + length w) (pre @ ws0 @ ''["date"'')\<close>
        by (simp add: add.commute)
      ultimately have \<open>prefix ''["date"]'' (drop (i + length w) (pre @ ws0 @ ''["date"''))\<close>
        by simp
      then have \<open>py_in ''["date"]'' (pre @ ws0 @ ''["date"'')\<close>
        unfolding py_in_iff by blast
      with assms(2) show False by simp
    qed
  qed
qed

section \<open>Properties\<close>

text \<open>
  C4. The season tags winter, summer, autumn and spring give 1 February, 1 August,
  1 October and 1 May 2025, and every tag that is none of these nor \<open>realistic\<close>
  gives the fallback 1 September 2025, whatever the date of the run is.
\<close>

theorem season_date_mapping:
  \<open>build_date_for_season today ''winter'' = (2025, 2, 1) \<and>
   build_date_for_season today ''summer'' = (2025, 8, 1) \<and>
   build_date_for_season today ''autumn'' = (2025, 10, 1) \<and>
   build_date_for_season today ''spring'' = (2025, 5, 1) \<and>
   (season \<notin> {''realistic'', ''summer'', ''winter'', ''autumn'', ''spring''} \<longrightarrow>
      build_date_for_season today season = (2025, 9, 1))\<close>
  by (simp add: build_date_for_season_def)

theorem season_date_mapping_witness:
  \<open>''bogus'' \<notin> {''realistic'', ''summer'', ''winter'', ''autumn'', ''spring''} \<and>
   build_date_for_season (1999, 12, 31) ''bogus'' = (2025, 9, 1) \<and>
   build_date_for_season (1999, 12, 31) ''winter'' = (2025, 2, 1)\<close>
  using season_date_mapping [of \<open>(1999, 12, 31)\<close> \<open>''bogus''\<close>] by simp

text \<open>
  C5. The weight is clamped to 0..100 and the bad pool is taken exactly when the
  draw is at most the clamped weight, the good pool otherwise; with a draw between 1
  and 100, weight 0 always takes the good pool and weight 100 always the bad pool.
  A template that is returned was read from a candidate of the pool taken.
\<close>

theorem weather_pool_selection:
  \<open>clamp_percentage weight = max 0 (min 100 weight) \<and>
   (chosen_dir weight roll = Bad \<longleftrightarrow> roll \<le> clamp_percentage weight) \<and>
   (chosen_dir weight roll = Good \<longleftrightarrow> \<not> roll \<le> clamp_percentage weight) \<and>
   (1 \<le> roll \<and> roll \<le> 100 \<longrightarrow> chosen_dir 0 roll = Good \<and> chosen_dir 100 roll = Bad) \<and>
   (pick_weather_template w roll pick weight = Some t \<longrightarrow>
      (\<exists>f \<in> set (candidates w (chosen_dir weight roll)). read_template w f = Some t))\<close>
proof -
  have clamp: \<open>clamp_percentage weight = max 0 (min 100 weight)\<close>
    by (simp add: clamp_percentage_def Let_def max_def min_def)
  have bad: \<open>chosen_dir weight roll = Bad \<longleftrightarrow> roll \<le> clamp_percentage weight\<close>
    by (simp add: chosen_dir_def)
  have good: \<open>chosen_dir weight roll = Good \<longleftrightarrow> \<not> roll \<le> clamp_percentage weight\<close>
    by (simp add: chosen_dir_def)
  have ends: \<open>1 \<le> roll \<and> roll \<le> 100 \<longrightarrow> chosen_dir 0 roll = Good \<and> chosen_dir 100 roll = Bad\<close>
    by (simp add: chosen_dir_def clamp_percentage_def)
  have src: \<open>pick_weather_template w roll pick weight = Some t \<longrightarrow>
      (\<exists>f \<in> set (candidates w (chosen_dir weight roll)). read_template w f = Some t)\<close>
  proof
    assume a: \<open>pick_weather_template w roll pick weight = Some t\<close>
    let ?c = \<open>candidates w (chosen_dir weight roll)\<close>
    from a have ne: \<open>?c \<noteq> []\<close>
      by (auto simp: pick_weather_template_def Let_def split: if_splits)
    from a ne have rd: \<open>read_template w (?c ! (pick mod length ?c)) = Some t\<close>
      by (auto simp: pick_weather_template_def Let_def split: if_splits)
    from ne have \<open>?c ! (pick mod length ?c) \<in> set ?c\<close> by simp
    with rd show \<open>\<exists>f \<in> set ?c. read_template w f = Some t\<close> by blast
  qed
  from clamp bad good ends src show ?thesis by blast
qed

theorem weather_pool_selection_witness:
  \<open>(1::int) \<le> 37 \<and> (37::int) \<le> 100 \<and>
   chosen_dir 0 37 = Good \<and> chosen_dir 100 37 = Bad \<and>
   pick_weather_template sample_dirs 37 3 250 = Some ''-- fog.config'' \<and>
   (\<exists>f \<in> set (candidates sample_dirs (chosen_dir 250 37)).
      read_template sample_dirs f = Some ''-- fog.config'')\<close>
proof -
  have p: \<open>pick_weather_template sample_dirs 37 3 250 = Some ''-- fog.config''\<close>
    unfolding sample_dirs_def by code_simp
  from weather_pool_selection [of 250 37 sample_dirs 3 \<open>''-- fog.config''\<close>] p
  have src: \<open>\<exists>f \<in> set (candidates sample_dirs (chosen_dir 250 37)).
      read_template sample_dirs f = Some ''-- fog.config''\<close>
    by blast
  from weather_pool_selection [of 0 37 sample_dirs 0 \<open>''''\<close>]
  have ends: \<open>chosen_dir 0 37 = Good \<and> chosen_dir 100 37 = Bad\<close>
    by simp
  from p src ends show ?thesis by simp
qed



text \<open>
  C2, as the code has it. For a text with at least one line that holds the
  start_time marker, the replacement changes the line at the last index that holds
  the marker, \<open>k\<close>, into the canonical line, a tab, \<open>["start_time"] = \<close>, the new
  value and a comma: its result is the lines of the text, without their terminators,
  joined by \<open>\n\<close> with line \<open>k\<close> exchanged. Read back as lines, the result has the new
  line at \<open>k\<close> and at every other index the line of the text; no line is added, and
  a line of the text that is missing from the result is an empty last line. The
  terminators are not kept. For a text whose lines are joined by \<open>\n\<close> and that has
  no terminator at its end, the result is the text with line \<open>k\<close> exchanged and not a
  byte changed elsewhere.
\<close>

theorem only_last_line_rewritten:
  assumes \<open>\<exists>l \<in> set (splitlines text). has_marker l\<close>
  shows \<open>\<exists>k. scan_last_index 0 None (splitlines text) = Some k \<and>
           k < length (splitlines text) \<and> has_marker (splitlines text ! k) \<and>
           (\<forall>j. k < j \<and> j < length (splitlines text) \<longrightarrow> \<not> has_marker (splitlines text ! j)) \<and>
           replace_start_time text nv =
             join_lines ((splitlines text)
               [k := CHR 0x09 # ''["start_time"] = '' @ str_of_int nv @ '','']) \<and>
           k < length (splitlines (replace_start_time text nv)) \<and>
           splitlines (replace_start_time text nv) ! k =
             CHR 0x09 # ''["start_time"] = '' @ str_of_int nv @ '','' \<and>
           length (splitlines (replace_start_time text nv)) \<le> length (splitlines text) \<and>
           (\<forall>i < length (splitlines (replace_start_time text nv)). i \<noteq> k \<longrightarrow>
              splitlines (replace_start_time text nv) ! i = splitlines text ! i) \<and>
           (\<forall>i. length (splitlines (replace_start_time text nv)) \<le> i \<and>
                i < length (splitlines text) \<longrightarrow> splitlines text ! i = []) \<and>
           (\<forall>ls. list_all no_break ls \<and> last ls \<noteq> [] \<and> text = join_lines ls \<longrightarrow>
              k < length ls \<and>
              replace_start_time text nv =
                join_lines (ls[k := CHR 0x09 # ''["start_time"] = '' @ str_of_int nv @ '','']))\<close>
proof -
  let ?L = \<open>splitlines text\<close>
  let ?c = \<open>CHR 0x09 # ''["start_time"] = '' @ str_of_int nv @ '',''\<close>
  have c: \<open>start_time_line nv = ?c\<close> by (simp add: start_time_line_def)
  from assms have \<open>scan_last_index 0 None ?L \<noteq> None\<close>
    by (simp add: scan_last_index_None)
  then obtain k where k: \<open>scan_last_index 0 None ?L = Some k\<close> by blast
  from scan_last_index_last [OF k] have kl: \<open>k < length ?L\<close> and mk: \<open>has_marker (?L ! k)\<close>
    and later: \<open>\<forall>j. k < j \<and> j < length ?L \<longrightarrow> \<not> has_marker (?L ! j)\<close> by blast+
  from k have out: \<open>replace_start_time text nv = join_lines (?L[k := ?c])\<close>
    by (simp add: replace_start_time_def c)
  have nb: \<open>list_all no_break ?L\<close>
    unfolding list_all_iff using splitlines_no_break by blast
  have nbc: \<open>no_break ?c\<close> using no_break_start_time_line [of nv] by (simp only: c)
  have nec: \<open>?c \<noteq> []\<close> by simp
  from resplit_update [OF kl nb nbc nec] out
  have reread: \<open>k < length (splitlines (replace_start_time text nv)) \<and>
           splitlines (replace_start_time text nv) ! k = ?c \<and>
           length (splitlines (replace_start_time text nv)) \<le> length (splitlines text) \<and>
           (\<forall>i < length (splitlines (replace_start_time text nv)). i \<noteq> k \<longrightarrow>
              splitlines (replace_start_time text nv) ! i = splitlines text ! i) \<and>
           (\<forall>i. length (splitlines (replace_start_time text nv)) \<le> i \<and>
                i < length (splitlines text) \<longrightarrow> splitlines text ! i = [])\<close>
    by simp
  have joined: \<open>\<forall>ls. list_all no_break ls \<and> last ls \<noteq> [] \<and> text = join_lines ls \<longrightarrow>
      k < length ls \<and> replace_start_time text nv = join_lines (ls[k := ?c])\<close>
  proof (intro allI impI)
    fix ls assume h: \<open>list_all no_break ls \<and> last ls \<noteq> [] \<and> text = join_lines ls\<close>
    have \<open>ls \<noteq> []\<close>
    proof
      assume \<open>ls = []\<close>
      with h have \<open>splitlines text = []\<close> by (simp add: splitlines_def)
      with kl show False by simp
    qed
    with h splitlines_join [of ls] have \<open>splitlines text = ls\<close> by simp
    with kl out show \<open>k < length ls \<and> replace_start_time text nv = join_lines (ls[k := ?c])\<close>
      by simp
  qed
  from k kl mk later out reread joined show ?thesis by blast
qed

theorem only_last_line_rewritten_witness:
  \<open>has_marker (splitlines mission_sample ! 0) \<and>
   splitlines mission_sample =
     [''["start_time"] = 100,'', ''["name"] = "x",'', ''["start_time"] = 36000,'', ''}''] \<and>
   scan_last_index 0 None (splitlines mission_sample) = Some 2 \<and>
   replace_start_time mission_sample 39600 =
     ''["start_time"] = 100,'' @ [CHR 0x0A] @ ''["name"] = "x",'' @ [CHR 0x0A, CHR 0x09] @
     ''["start_time"] = 39600,'' @ [CHR 0x0A] @ ''}'' \<and>
   list_all no_break [''["start_time"] = 100,'', ''["start_time"] = 36000,''] \<and>
   last [''["start_time"] = 100,'', ''["start_time"] = 36000,''] \<noteq> [] \<and>
   scenario_A = join_lines [''["start_time"] = 100,'', ''["start_time"] = 36000,''] \<and>
   replace_start_time scenario_A 39600 =
     ''["start_time"] = 100,'' @ [CHR 0x0A, CHR 0x09] @ ''["start_time"] = 39600,''\<close>
proof -
  have lines: \<open>splitlines mission_sample =
     [''["start_time"] = 100,'', ''["name"] = "x",'', ''["start_time"] = 36000,'', ''}'']\<close>
    by code_simp
  have m0: \<open>has_marker (splitlines mission_sample ! 0)\<close> by code_simp
  have k2: \<open>scan_last_index 0 None (splitlines mission_sample) = Some 2\<close> by code_simp
  have num: \<open>str_of_int 39600 = ''39600''\<close>
    by (simp add: str_of_int_def str_of_nat.simps)
  from lines m0 have h: \<open>\<exists>l \<in> set (splitlines mission_sample). has_marker l\<close>
    by (metis nth_mem length_Cons zero_less_Suc)
  from only_last_line_rewritten [OF h, of 39600] obtain k where
    k: \<open>scan_last_index 0 None (splitlines mission_sample) = Some k\<close> and
    o: \<open>replace_start_time mission_sample 39600 =
          join_lines ((splitlines mission_sample)
            [k := CHR 0x09 # ''["start_time"] = '' @ str_of_int 39600 @ '',''])\<close>
    by blast
  from k k2 have \<open>k = 2\<close> by simp
  with o lines num have out: \<open>replace_start_time mission_sample 39600 =
     ''["start_time"] = 100,'' @ [CHR 0x0A] @ ''["name"] = "x",'' @ [CHR 0x0A, CHR 0x09] @
     ''["start_time"] = 39600,'' @ [CHR 0x0A] @ ''}''\<close>
    by simp
  let ?ls = \<open>[''["start_time"] = 100,'', ''["start_time"] = 36000,'']\<close>
  have nb: \<open>list_all no_break ?ls\<close> by (simp add: no_break_def is_linebreak_def)
  have la: \<open>last ?ls \<noteq> []\<close> by simp
  have jo: \<open>scenario_A = join_lines ?ls\<close> by (simp add: scenario_A_def)
  have la1: \<open>splitlines scenario_A = ?ls\<close> by code_simp
  have ka: \<open>scan_last_index 0 None (splitlines scenario_A) = Some 1\<close> by code_simp
  have ma: \<open>has_marker ''["start_time"] = 100,''\<close> by code_simp
  from la1 ma have ha: \<open>\<exists>l \<in> set (splitlines scenario_A). has_marker l\<close> by simp
  from only_last_line_rewritten [OF ha, of 39600] obtain j where
    j: \<open>scan_last_index 0 None (splitlines scenario_A) = Some j\<close> and
    a: \<open>\<forall>ls. list_all no_break ls \<and> last ls \<noteq> [] \<and> scenario_A = join_lines ls \<longrightarrow>
          j < length ls \<and>
          replace_start_time scenario_A 39600 =
            join_lines (ls[j := CHR 0x09 # ''["start_time"] = '' @ str_of_int 39600 @ '',''])\<close>
    by blast
  from j ka have j1: \<open>j = 1\<close> by simp
  from a nb la jo have \<open>replace_start_time scenario_A 39600 =
      join_lines (?ls[j := CHR 0x09 # ''["start_time"] = '' @ str_of_int 39600 @ '',''])\<close>
    by blast
  with j1 num have outa: \<open>replace_start_time scenario_A 39600 =
     ''["start_time"] = 100,'' @ [CHR 0x0A, CHR 0x09] @ ''["start_time"] = 39600,''\<close>
    by simp
  show ?thesis by (intro conjI) (rule m0 lines k2 out nb la jo outa)+
qed

text \<open>
  C2 as stated fails: in a text whose first line is ended by \<open>\r\n\<close> and whose
  start_time line is ended by \<open>\n\<close>, the bytes of the first line with its terminator
  are not those that the result begins with, and the result has lost the terminator
  at its end.
\<close>

theorem terminators_rewritten_counterexample:
  \<open>crlf_sample = ''x'' @ [CHR 0x0D, CHR 0x0A] @ ''["start_time"] = 1,'' @ [CHR 0x0A] \<and>
   replace_start_time crlf_sample 5 = ''x'' @ [CHR 0x0A, CHR 0x09] @ ''["start_time"] = 5,'' \<and>
   take 3 crlf_sample = ''x'' @ [CHR 0x0D, CHR 0x0A] \<and>
   take 3 (replace_start_time crlf_sample 5) \<noteq> take 3 crlf_sample \<and>
   last crlf_sample = CHR 0x0A \<and> last (replace_start_time crlf_sample 5) \<noteq> CHR 0x0A\<close>
proof -
  have d: \<open>crlf_sample = ''x'' @ [CHR 0x0D, CHR 0x0A] @ ''["start_time"] = 1,'' @ [CHR 0x0A]\<close>
    by (simp add: crlf_sample_def)
  have lines: \<open>splitlines crlf_sample = [''x'', ''["start_time"] = 1,'']\<close> by code_simp
  have k: \<open>scan_last_index 0 None (splitlines crlf_sample) = Some 1\<close> by code_simp
  have num: \<open>str_of_int 5 = ''5''\<close> by (simp add: str_of_int_def str_of_nat.simps)
  have out: \<open>replace_start_time crlf_sample 5 =
      ''x'' @ [CHR 0x0A, CHR 0x09] @ ''["start_time"] = 5,''\<close>
    using k by (simp add: replace_start_time_def lines start_time_line_def num)
  have t: \<open>take 3 crlf_sample = ''x'' @ [CHR 0x0D, CHR 0x0A]\<close> by (simp add: crlf_sample_def)
  have n: \<open>take 3 (replace_start_time crlf_sample 5) \<noteq> take 3 crlf_sample\<close>
    by (simp add: out t)
  have l1: \<open>last crlf_sample = CHR 0x0A\<close> by (simp add: crlf_sample_def)
  have l2: \<open>last (replace_start_time crlf_sample 5) \<noteq> CHR 0x0A\<close> by (simp add: out)
  show ?thesis by (intro conjI) (rule d out t n l1 l2)+
qed

text \<open>
  C3, as the code has it. Marker lines that do not parse are passed over: the update
  fails with FieldNotFound exactly when no line that holds the marker parses, so in
  particular when no line holds the marker, and otherwise the current value is the
  integer of the last marker line that parses. When the last line that holds the
  marker, the one that is rewritten, parses, the current value is its integer.
\<close>

theorem current_value_is_last_parsable:
  \<open>(updated_mission_text text d = Inl FieldNotFound \<longleftrightarrow>
      (\<forall>l \<in> set (splitlines text). has_marker l \<longrightarrow> parse_line l = None)) \<and>
   ((\<forall>l \<in> set (splitlines text). \<not> has_marker l) \<longrightarrow>
      updated_mission_text text d = Inl FieldNotFound) \<and>
   (splitlines text = pre @ l # post \<and> has_marker l \<and> parse_line l = Some v \<and>
    (\<forall>x \<in> set post. has_marker x \<longrightarrow> parse_line x = None) \<longrightarrow>
      updated_mission_text text d = Inr (replace_start_time text ((v + d) mod 86400))) \<and>
   (scan_last_index 0 None (splitlines text) = Some k \<and>
    parse_line (splitlines text ! k) = Some u \<longrightarrow>
      updated_mission_text text d =
        Inr (join_lines ((splitlines text)[k := start_time_line ((u + d) mod 86400)])))\<close>
proof -
  have none: \<open>parse_start_time text = None \<longleftrightarrow>
      (\<forall>l \<in> set (splitlines text). has_marker l \<longrightarrow> parse_line l = None)\<close>
    by (simp add: parse_start_time_def scan_last_value_None)
  have a: \<open>updated_mission_text text d = Inl FieldNotFound \<longleftrightarrow>
      (\<forall>l \<in> set (splitlines text). has_marker l \<longrightarrow> parse_line l = None)\<close>
    using none by (auto simp: updated_mission_text_def Let_def split: option.splits)
  have b: \<open>(\<forall>l \<in> set (splitlines text). \<not> has_marker l) \<longrightarrow>
      updated_mission_text text d = Inl FieldNotFound\<close>
    using a by blast
  have c: \<open>splitlines text = pre @ l # post \<and> has_marker l \<and> parse_line l = Some v \<and>
    (\<forall>x \<in> set post. has_marker x \<longrightarrow> parse_line x = None) \<longrightarrow>
      updated_mission_text text d = Inr (replace_start_time text ((v + d) mod 86400))\<close>
  proof
    assume h: \<open>splitlines text = pre @ l # post \<and> has_marker l \<and> parse_line l = Some v \<and>
      (\<forall>x \<in> set post. has_marker x \<longrightarrow> parse_line x = None)\<close>
    then have \<open>scan_last_value None (pre @ l # post) = Some v\<close>
      using scan_last_value_decomp [of l v post None pre] by blast
    with h have \<open>parse_start_time text = Some v\<close> by (simp add: parse_start_time_def)
    then show \<open>updated_mission_text text d = Inr (replace_start_time text ((v + d) mod 86400))\<close>
      by (simp add: updated_mission_text_def MAX_TIME_def)
  qed
  have e: \<open>scan_last_index 0 None (splitlines text) = Some k \<and>
    parse_line (splitlines text ! k) = Some u \<longrightarrow>
      updated_mission_text text d =
        Inr (join_lines ((splitlines text)[k := start_time_line ((u + d) mod 86400)]))\<close>
  proof
    assume h: \<open>scan_last_index 0 None (splitlines text) = Some k \<and>
      parse_line (splitlines text ! k) = Some u\<close>
    then have \<open>parse_start_time text = Some u\<close>
      using parse_at_last_index [of \<open>splitlines text\<close> k u] by (simp add: parse_start_time_def)
    with h show \<open>updated_mission_text text d =
        Inr (join_lines ((splitlines text)[k := start_time_line ((u + d) mod 86400)]))\<close>
      by (simp add: updated_mission_text_def replace_start_time_def MAX_TIME_def)
  qed
  from a b c e show ?thesis by blast
qed

theorem current_value_is_last_parsable_witness:
  \<open>splitlines unparsable_only = [''["start_time"] = soon,''] \<and>
   parse_line ''["start_time"] = soon,'' = None \<and>
   updated_mission_text unparsable_only 60 = Inl FieldNotFound \<and>
   splitlines ''}'' = [''}''] \<and> \<not> has_marker ''}'' \<and>
   updated_mission_text ''}'' 60 = Inl FieldNotFound \<and>
   splitlines scenario_A = [''["start_time"] = 100,''] @ ''["start_time"] = 36000,'' # [] \<and>
   has_marker ''["start_time"] = 36000,'' \<and>
   parse_line ''["start_time"] = 36000,'' = Some 36000 \<and>
   updated_mission_text scenario_A 90000 = Inr (replace_start_time scenario_A 39600) \<and>
   scan_last_index 0 None (splitlines scenario_A) = Some 1 \<and>
   parse_line (splitlines scenario_A ! 1) = Some 36000 \<and>
   updated_mission_text scenario_A 90000 =
     Inr (join_lines ((splitlines scenario_A)[1 := start_time_line 39600]))\<close>
proof -
  have lines: \<open>splitlines unparsable_only = [''["start_time"] = soon,'']\<close>
    by code_simp
  have np: \<open>parse_line ''["start_time"] = soon,'' = None\<close>
    by code_simp
  from lines np have h0: \<open>\<forall>l \<in> set (splitlines unparsable_only). has_marker l \<longrightarrow> parse_line l = None\<close>
    by simp
  from current_value_is_last_parsable [of unparsable_only 60] h0
  have a: \<open>updated_mission_text unparsable_only 60 = Inl FieldNotFound\<close> by blast
  have l2: \<open>splitlines ''}'' = [''}'']\<close> by code_simp
  have nm: \<open>\<not> has_marker ''}''\<close> by code_simp
  from l2 nm have h00: \<open>\<forall>l \<in> set (splitlines ''}''). \<not> has_marker l\<close> by simp
  from current_value_is_last_parsable [of \<open>''}''\<close> 60] h00
  have a2: \<open>updated_mission_text ''}'' 60 = Inl FieldNotFound\<close> by blast
  have l3: \<open>splitlines scenario_A = [''["start_time"] = 100,''] @ ''["start_time"] = 36000,'' # []\<close>
    by code_simp
  have hm: \<open>has_marker ''["start_time"] = 36000,''\<close> by code_simp
  have pl: \<open>parse_line ''["start_time"] = 36000,'' = Some 36000\<close> by code_simp
  have h1: \<open>scan_last_index 0 None (splitlines scenario_A) = Some 1\<close>
    by code_simp
  have h2: \<open>parse_line (splitlines scenario_A ! 1) = Some 36000\<close>
    by code_simp
  note inst = current_value_is_last_parsable [of scenario_A 90000
      \<open>[''["start_time"] = 100,'']\<close> \<open>''["start_time"] = 36000,''\<close> \<open>[]\<close> 36000 1 36000]
  from inst l3 hm pl
  have b3: \<open>updated_mission_text scenario_A 90000 = Inr (replace_start_time scenario_A 39600)\<close>
    by simp
  from inst h1 h2
  have b: \<open>updated_mission_text scenario_A 90000 =
     Inr (join_lines ((splitlines scenario_A)[1 := start_time_line 39600]))\<close> by simp
  show ?thesis by (intro conjI) (rule lines np a l2 nm a2 l3 hm pl b3 h1 h2 b)+
qed

text \<open>
  C3 as stated fails: a text whose only marker line holds no number has a line that
  matches the marker, and the update fails with FieldNotFound; and in a text whose
  last marker line, at index 1, holds no number, the current value is the 100 of the
  line above it, and with a delta of 60 the line at index 1 is rewritten to 160.
\<close>

theorem unparsable_marker_line_counterexample:
  \<open>has_marker (splitlines unparsable_only ! 0) \<and>
   updated_mission_text unparsable_only 60 = Inl FieldNotFound \<and>
   scan_last_index 0 None (splitlines unparsable_last) = Some 1 \<and>
   parse_line (splitlines unparsable_last ! 1) = None \<and>
   parse_start_time unparsable_last = Some 100 \<and>
   updated_mission_text unparsable_last 60 =
     Inr (''["start_time"] = 100,'' @ [CHR 0x0A, CHR 0x09] @ ''["start_time"] = 160,'')\<close>
proof -
  have a: \<open>has_marker (splitlines unparsable_only ! 0)\<close> by code_simp
  have b: \<open>updated_mission_text unparsable_only 60 = Inl FieldNotFound\<close> by code_simp
  have c: \<open>scan_last_index 0 None (splitlines unparsable_last) = Some 1\<close> by code_simp
  have d: \<open>parse_line (splitlines unparsable_last ! 1) = None\<close> by code_simp
  have e: \<open>parse_start_time unparsable_last = Some 100\<close> by code_simp
  have lines: \<open>splitlines unparsable_last =
      [''["start_time"] = 100,'', ''["start_time"] = soon,'']\<close> by code_simp
  have line: \<open>start_time_line 160 = CHR 0x09 # ''["start_time"] = 160,''\<close>
    by (simp add: start_time_line_def str_of_int_def str_of_nat.simps)
  have f: \<open>updated_mission_text unparsable_last 60 =
     Inr (''["start_time"] = 100,'' @ [CHR 0x0A, CHR 0x09] @ ''["start_time"] = 160,'')\<close>
    using c e by (simp add: updated_mission_text_def replace_start_time_def MAX_TIME_def lines line)
  show ?thesis by (intro conjI) (rule a b c d e f)+
qed

text \<open>
  C6, as the code has it. The date-block replace returns nothing exactly when the
  pattern matches at no position of the text. When it returns a text, that text is
  the input with the first match, and nothing before or after it, replaced by the
  canonical block: the label, the brace, the Day, the Year and the Month of the
  season's date on a line each, and the closing brace with the end marker. A date
  block, preceded by text that does not hold the label and does not end in
  whitespace, is matched whatever its fields are and in whatever order, up to the
  first \<open>},\<close> after its brace, with any whitespace between its parts, with the end
  marker or without it. The match starts before the label, at the whitespace in
  front of it, and ends after the whitespace that follows the \<open>},\<close>, or after the
  end marker when there is one: all of that is replaced, and all that follows, later
  date blocks too, stays as it is.
\<close>

theorem date_block_replaced:
  \<open>new_block (year, month, day) =
     CHR 0x09 # ''["date"] = '' @ [CHR 0x0A] @
     CHR 0x09 # ''{'' @ [CHR 0x0A] @
     [CHR 0x09, CHR 0x09] @ ''["Day"] = '' @ str_of_int day @ '','' @ [CHR 0x0A] @
     [CHR 0x09, CHR 0x09] @ ''["Year"] = '' @ str_of_int year @ '','' @ [CHR 0x0A] @
     [CHR 0x09, CHR 0x09] @ ''["Month"] = '' @ str_of_int month @ '','' @ [CHR 0x0A] @
     CHR 0x09 # ''}, -- end of ["date"]'' @ [CHR 0x0A] \<and>
   (update_date_block today text season = None \<longleftrightarrow>
      (\<forall>i \<le> length text. re_match date_pattern (drop i text) = None)) \<and>
   (update_date_block today text season = Some out \<longrightarrow>
      (\<exists>b m t. text = b @ m @ t \<and>
         out = b @ new_block (build_date_for_season today season) @ t \<and>
         re_match date_pattern (m @ t) = Some t \<and>
         (\<forall>i < length b. re_match date_pattern (drop i text) = None))) \<and>
   (list_all py_isspace ws0 \<and> list_all py_isspace ws1 \<and> list_all py_isspace ws2 \<and>
    list_all py_isspace ws3 \<and> list_all py_isspace ws4 \<and>
    (pre = [] \<or> \<not> py_isspace (last pre)) \<and>
    \<not> py_in ''["date"]'' (pre @ ws0 @ ''["date"'') \<and>
    \<not> py_in ''},'' (body @ ''}'') \<longrightarrow>
      update_date_block today (pre @ date_block ws0 ws1 ws2 body ws3 @ end_marker ws4 @ post) season =
        Some (pre @ new_block (build_date_for_season today season) @ post) \<and>
      ((post = [] \<or> \<not> py_isspace (hd post)) \<and> \<not> prefix ''--'' post \<longrightarrow>
         update_date_block today (pre @ date_block ws0 ws1 ws2 body ws3 @ post) season =
           Some (pre @ new_block (build_date_for_season today season) @ post)))\<close>
proof -
  have form: \<open>new_block (year, month, day) =
     CHR 0x09 # ''["date"] = '' @ [CHR 0x0A] @
     CHR 0x09 # ''{'' @ [CHR 0x0A] @
     [CHR 0x09, CHR 0x09] @ ''["Day"] = '' @ str_of_int day @ '','' @ [CHR 0x0A] @
     [CHR 0x09, CHR 0x09] @ ''["Year"] = '' @ str_of_int year @ '','' @ [CHR 0x0A] @
     [CHR 0x09, CHR 0x09] @ ''["Month"] = '' @ str_of_int month @ '','' @ [CHR 0x0A] @
     CHR 0x09 # ''}, -- end of ["date"]'' @ [CHR 0x0A]\<close>
    by (simp add: new_block_def)
  let ?nb = \<open>new_block (build_date_for_season today season)\<close>
  have a: \<open>update_date_block today text season = None \<longleftrightarrow>
      (\<forall>i \<le> length text. re_match date_pattern (drop i text) = None)\<close>
    using re_search_None [of date_pattern \<open>text\<close>]
    by (auto simp: update_date_block_def replace_date_block_def split: option.splits)
  have b: \<open>update_date_block today text season = Some out \<longrightarrow>
      (\<exists>b m t. text = b @ m @ t \<and> out = b @ ?nb @ t \<and>
         re_match date_pattern (m @ t) = Some t \<and>
         (\<forall>i < length b. re_match date_pattern (drop i text) = None))\<close>
  proof
    assume \<open>update_date_block today text season = Some out\<close>
    then obtain b t where s: \<open>re_search date_pattern text = Some (b, t)\<close>
      and o: \<open>out = b @ ?nb @ t\<close>
      by (auto simp: update_date_block_def replace_date_block_def split: option.splits)
    from re_search_Some [OF s] have pb: \<open>prefix b text\<close>
      and m: \<open>re_match date_pattern (drop (length b) text) = Some t\<close>
      and e: \<open>\<forall>i < length b. re_match date_pattern (drop i text) = None\<close> by blast+
    from re_match_suffix [OF m] obtain m' where m': \<open>drop (length b) text = m' @ t\<close>
      unfolding suffix_def by blast
    from pb have \<open>text = b @ drop (length b) text\<close>
      unfolding prefix_def by auto
    with m' have \<open>text = b @ m' @ t\<close> by simp
    moreover from m m' have \<open>re_match date_pattern (m' @ t) = Some t\<close> by simp
    ultimately show \<open>\<exists>b m t. text = b @ m @ t \<and> out = b @ ?nb @ t \<and>
         re_match date_pattern (m @ t) = Some t \<and>
         (\<forall>i < length b. re_match date_pattern (drop i text) = None)\<close>
      using o e by blast
  qed
  have c: \<open>list_all py_isspace ws0 \<and> list_all py_isspace ws1 \<and> list_all py_isspace ws2 \<and>
    list_all py_isspace ws3 \<and> list_all py_isspace ws4 \<and>
    (pre = [] \<or> \<not> py_isspace (last pre)) \<and>
    \<not> py_in ''["date"]'' (pre @ ws0 @ ''["date"'') \<and>
    \<not> py_in ''},'' (body @ ''}'') \<longrightarrow>
      update_date_block today (pre @ date_block ws0 ws1 ws2 body ws3 @ end_marker ws4 @ post) season =
        Some (pre @ ?nb @ post) \<and>
      ((post = [] \<or> \<not> py_isspace (hd post)) \<and> \<not> prefix ''--'' post \<longrightarrow>
         update_date_block today (pre @ date_block ws0 ws1 ws2 body ws3 @ post) season =
           Some (pre @ ?nb @ post))\<close>
  proof (intro impI)
    assume h: \<open>list_all py_isspace ws0 \<and> list_all py_isspace ws1 \<and> list_all py_isspace ws2 \<and>
      list_all py_isspace ws3 \<and> list_all py_isspace ws4 \<and>
      (pre = [] \<or> \<not> py_isspace (last pre)) \<and>
      \<not> py_in ''["date"]'' (pre @ ws0 @ ''["date"'') \<and>
      \<not> py_in ''},'' (body @ ''}'')\<close>
    have found: \<open>re_search date_pattern (pre @ date_block ws0 ws1 ws2 body ws3 @ rest) =
        Some (pre, post)\<close>
      if tail: \<open>re_match [Star Space, Opt end_marker_group] (ws3 @ rest) = Some post\<close> for rest
    proof -
      have blk: \<open>date_block ws0 ws1 ws2 body ws3 @ rest =
          ws0 @ ''["date"]'' @ ws1 @ ''='' @ ws2 @ ''{'' @ body @ ''},'' @ ws3 @ rest\<close>
        by (simp add: date_block_def)
      from h tail have m: \<open>re_match date_pattern (date_block ws0 ws1 ws2 body ws3 @ rest) = Some post\<close>
        unfolding blk by (intro core_match) blast+
      from h have \<open>\<forall>i < length pre. re_match date_pattern
          (drop i pre @ date_block ws0 ws1 ws2 body ws3 @ rest) = None\<close>
        unfolding blk by (intro nothing_earlier) blast+
      from re_search_first [OF this m] show ?thesis .
    qed
    have with_marker: \<open>update_date_block today
        (pre @ date_block ws0 ws1 ws2 body ws3 @ end_marker ws4 @ post) season =
        Some (pre @ ?nb @ post)\<close>
    proof -
      from h have \<open>re_match [Star Space, Opt end_marker_group] (ws3 @ end_marker ws4 @ post) = Some post\<close>
        by (intro tail_comment) blast+
      from found [OF this] show ?thesis by (simp add: update_date_block_def replace_date_block_def)
    qed
    have plain: \<open>(post = [] \<or> \<not> py_isspace (hd post)) \<and> \<not> prefix ''--'' post \<longrightarrow>
         update_date_block today (pre @ date_block ws0 ws1 ws2 body ws3 @ post) season =
           Some (pre @ ?nb @ post)\<close>
    proof
      assume p: \<open>(post = [] \<or> \<not> py_isspace (hd post)) \<and> \<not> prefix ''--'' post\<close>
      with h have \<open>re_match [Star Space, Opt end_marker_group] (ws3 @ post) = Some post\<close>
        by (intro tail_plain) blast+
      from found [OF this] show \<open>update_date_block today
          (pre @ date_block ws0 ws1 ws2 body ws3 @ post) season = Some (pre @ ?nb @ post)\<close>
        by (simp add: update_date_block_def replace_date_block_def)
    qed
    from with_marker plain show \<open>update_date_block today
        (pre @ date_block ws0 ws1 ws2 body ws3 @ end_marker ws4 @ post) season =
        Some (pre @ ?nb @ post) \<and>
      ((post = [] \<or> \<not> py_isspace (hd post)) \<and> \<not> prefix ''--'' post \<longrightarrow>
         update_date_block today (pre @ date_block ws0 ws1 ws2 body ws3 @ post) season =
           Some (pre @ ?nb @ post))\<close> by blast
  qed
  from form a b c show ?thesis by blast
qed

theorem date_block_replaced_witness:
  \<open>\<not> py_isspace (last ''["x"] = 1,'') \<and>
   \<not> py_in ''["date"]'' (''["x"] = 1,'' @ [CHR 0x0A, CHR 0x09] @ ''["date"'') \<and>
   \<not> py_in ''},'' (sample_fields @ ''}'') \<and>
   \<not> py_isspace (hd ''["y"] = 2,'') \<and> \<not> prefix ''--'' ''["y"] = 2,'' \<and>
   new_block (2025, 2, 1) = winter_block \<and>
   update_date_block (1999, 12, 31)
     (''["x"] = 1,'' @ date_block [CHR 0x0A, CHR 0x09] '' '' [CHR 0x0A, CHR 0x09] sample_fields '' '' @
      end_marker '' '' @ later_block) ''winter'' =
     Some (''["x"] = 1,'' @ winter_block @ later_block) \<and>
   update_date_block (1999, 12, 31)
     (''["x"] = 1,'' @ date_block [CHR 0x0A, CHR 0x09] '' '' [CHR 0x0A, CHR 0x09] sample_fields
        [CHR 0x0A, CHR 0x09] @ ''["y"] = 2,'') ''bogus'' =
     Some (''["x"] = 1,'' @ fallback_block @ ''["y"] = 2,'') \<and>
   update_date_block (1999, 12, 31) ''["date"] = {'' ''winter'' = None \<and>
   re_match date_pattern (drop 0 ''["date"] = {'') = None \<and>
   (\<exists>b m t. ''["x"] = 1,'' @ date_block [CHR 0x0A, CHR 0x09] '' '' [CHR 0x0A, CHR 0x09] sample_fields '' '' @
        end_marker '' '' @ later_block = b @ m @ t \<and>
      re_match date_pattern (m @ t) = Some t)\<close>
proof -
  have s0: \<open>list_all py_isspace [CHR 0x0A, CHR 0x09]\<close> by (simp add: py_isspace_def)
  have s1: \<open>list_all py_isspace '' ''\<close> by (simp add: py_isspace_def)
  have e: \<open>\<not> py_isspace (last ''["x"] = 1,'')\<close> by (simp add: py_isspace_def)
  have l: \<open>\<not> py_in ''["date"]'' (''["x"] = 1,'' @ [CHR 0x0A, CHR 0x09] @ ''["date"'')\<close>
    by code_simp
  have f: \<open>\<not> py_in ''},'' (sample_fields @ ''}'')\<close>
    by code_simp
  have p1: \<open>\<not> py_isspace (hd ''["y"] = 2,'')\<close> by (simp add: py_isspace_def)
  have p2: \<open>\<not> prefix ''--'' ''["y"] = 2,''\<close> by simp
  have w: \<open>build_date_for_season (1999, 12, 31) ''winter'' = (2025, 2, 1)\<close>
    by (simp add: build_date_for_season_def)
  have g: \<open>build_date_for_season (1999, 12, 31) ''bogus'' = (2025, 9, 1)\<close>
    by (simp add: build_date_for_season_def)
  have wb: \<open>new_block (2025, 2, 1) = winter_block\<close>
    using date_block_replaced [of 2025 2 1, THEN conjunct1]
    by (simp add: winter_block_def str_of_int_def str_of_nat.simps)
  have fb: \<open>new_block (2025, 9, 1) = fallback_block\<close>
    using date_block_replaced [of 2025 9 1, THEN conjunct1]
    by (simp add: fallback_block_def str_of_int_def str_of_nat.simps)
  let ?t = \<open>''["x"] = 1,'' @ date_block [CHR 0x0A, CHR 0x09] '' '' [CHR 0x0A, CHR 0x09] sample_fields '' '' @
        end_marker '' '' @ later_block\<close>
  let ?o = \<open>''["x"] = 1,'' @ new_block (build_date_for_season (1999, 12, 31) ''winter'') @ later_block\<close>
  from date_block_replaced [of _ _ _ \<open>(1999, 12, 31)\<close> \<open>[]\<close> \<open>''winter''\<close> \<open>[]\<close>
      \<open>[CHR 0x0A, CHR 0x09]\<close> \<open>'' ''\<close> \<open>[CHR 0x0A, CHR 0x09]\<close> \<open>'' ''\<close> \<open>'' ''\<close>
      \<open>''["x"] = 1,''\<close> sample_fields later_block] s0 s1 e l f
  have a: \<open>update_date_block (1999, 12, 31) ?t ''winter'' = Some ?o\<close>
    by blast
  from date_block_replaced [of _ _ _ \<open>(1999, 12, 31)\<close> \<open>[]\<close> \<open>''bogus''\<close> \<open>[]\<close>
      \<open>[CHR 0x0A, CHR 0x09]\<close> \<open>'' ''\<close> \<open>[CHR 0x0A, CHR 0x09]\<close> \<open>[CHR 0x0A, CHR 0x09]\<close> \<open>'' ''\<close>
      \<open>''["x"] = 1,''\<close> sample_fields \<open>''["y"] = 2,''\<close>] s0 s1 e l f p1 p2
  have b: \<open>update_date_block (1999, 12, 31)
     (''["x"] = 1,'' @ date_block [CHR 0x0A, CHR 0x09] '' '' [CHR 0x0A, CHR 0x09] sample_fields
        [CHR 0x0A, CHR 0x09] @ ''["y"] = 2,'') ''bogus'' =
     Some (''["x"] = 1,'' @ new_block (build_date_for_season (1999, 12, 31) ''bogus'') @ ''["y"] = 2,'')\<close>
    by blast
  have n: \<open>update_date_block (1999, 12, 31) ''["date"] = {'' ''winter'' = None\<close>
    by code_simp
  have \<open>update_date_block (1999, 12, 31) ''["date"] = {'' ''winter'' = None \<longleftrightarrow>
      (\<forall>i \<le> length ''["date"] = {''. re_match date_pattern (drop i ''["date"] = {'') = None)\<close>
    by (rule date_block_replaced [of _ _ _ _ \<open>''["date"] = {''\<close>, THEN conjunct2, THEN conjunct1])
  with n have \<open>\<forall>i \<le> length ''["date"] = {''. re_match date_pattern (drop i ''["date"] = {'') = None\<close>
    by (rule iffD1 [rotated])
  then have \<open>0 \<le> length ''["date"] = {'' \<longrightarrow>
      re_match date_pattern (drop 0 ''["date"] = {'') = None\<close>
    by (rule spec)
  then have n0: \<open>re_match date_pattern (drop 0 ''["date"] = {'') = None\<close>
    by (rule mp) (rule le0)
  have \<open>update_date_block (1999, 12, 31) ?t ''winter'' = Some ?o \<longrightarrow>
      (\<exists>b m t. ?t = b @ m @ t \<and>
         ?o = b @ new_block (build_date_for_season (1999, 12, 31) ''winter'') @ t \<and>
         re_match date_pattern (m @ t) = Some t \<and>
         (\<forall>i < length b. re_match date_pattern (drop i ?t) = None))\<close>
    by (rule date_block_replaced [of _ _ _ _ ?t _ ?o, THEN conjunct2, THEN conjunct2, THEN conjunct1])
  from this a have \<open>\<exists>b m t. ?t = b @ m @ t \<and>
         ?o = b @ new_block (build_date_for_season (1999, 12, 31) ''winter'') @ t \<and>
         re_match date_pattern (m @ t) = Some t \<and>
         (\<forall>i < length b. re_match date_pattern (drop i ?t) = None)\<close>
    by (rule mp)
  then have x: \<open>\<exists>b m t. ?t = b @ m @ t \<and> re_match date_pattern (m @ t) = Some t\<close>
    by (elim exE conjE) (intro exI conjI; assumption)
  from a w wb have a': \<open>update_date_block (1999, 12, 31) ?t ''winter'' =
      Some (''["x"] = 1,'' @ winter_block @ later_block)\<close> by simp
  from b g fb have b': \<open>update_date_block (1999, 12, 31)
     (''["x"] = 1,'' @ date_block [CHR 0x0A, CHR 0x09] '' '' [CHR 0x0A, CHR 0x09] sample_fields
        [CHR 0x0A, CHR 0x09] @ ''["y"] = 2,'') ''bogus'' =
     Some (''["x"] = 1,'' @ fallback_block @ ''["y"] = 2,'')\<close> by simp
  show ?thesis by (intro conjI) (rule e l f p1 p2 wb a' b' n n0 x)+
qed

text \<open>
  C6 as stated fails: in a text with a line before the date block and a line after
  it, the match does not start at the opening label and end at the \<open>},\<close>. It takes
  the newline in front of the label and the newline behind the \<open>},\<close> too, so the
  result is not the text with the span from the label to the \<open>},\<close> replaced.
\<close>

theorem date_block_span_counterexample:
  \<open>framed_block = ''a,'' @ [CHR 0x0A] @ ''["date"]={},'' @ [CHR 0x0A] @ ''b'' \<and>
   re_search date_pattern framed_block = Some (''a,'', ''b'') \<and>
   update_date_block (1999, 12, 31) framed_block ''winter'' =
     Some (''a,'' @ winter_block @ ''b'') \<and>
   update_date_block (1999, 12, 31) framed_block ''winter'' \<noteq>
     Some (''a,'' @ [CHR 0x0A] @ winter_block @ [CHR 0x0A] @ ''b'')\<close>
proof -
  have d: \<open>framed_block = ''a,'' @ [CHR 0x0A] @ ''["date"]={},'' @ [CHR 0x0A] @ ''b''\<close>
    by (simp add: framed_block_def)
  have r: \<open>re_search date_pattern framed_block = Some (''a,'', ''b'')\<close>
    by code_simp
  have nb: \<open>new_block (2025, 2, 1) = winter_block\<close>
    by (simp add: new_block_def winter_block_def str_of_int_def str_of_nat.simps)
  have u: \<open>update_date_block (1999, 12, 31) framed_block ''winter'' =
     Some (''a,'' @ winter_block @ ''b'')\<close>
    by (simp add: update_date_block_def replace_date_block_def r build_date_for_season_def nb)
  have n: \<open>update_date_block (1999, 12, 31) framed_block ''winter'' \<noteq>
     Some (''a,'' @ [CHR 0x0A] @ winter_block @ [CHR 0x0A] @ ''b'')\<close>
    by (simp add: u winter_block_def)
  show ?thesis by (intro conjI) (rule d r u n)+
qed

text \<open>
  C7, as the code has it. Without an archive at the configured path the time
  workflow returns failure with one error notification and nothing else, and the
  weather workflow never scans, stops or starts the server, whatever the
  configuration holds. When the configuration is an object that enables rotation,
  its mission path is a text and its bad-weather percentage converts to an integer,
  the weather workflow returns failure with one error notification and nothing else.
  When the configuration is an object that does not enable rotation, the weather
  workflow returns success and does nothing.
\<close>

theorem missing_archive_fails_first:
  assumes \<open>\<not> miz_exists w\<close>
  shows \<open>update_miz_start_time w d = (Returned False, [Notify Error MizNotFound]) \<and>
         (\<forall>e \<in> set (snd (rotate_weather_in_miz w)). \<not> process_control e) \<and>
         (config_json w = Parsed (JObject members) \<and>
          truthy (dict_get members ''weather_rotation_enabled'' (JBool False)) \<and>
          dict_get members ''mission_path'' (JString []) = JString path \<and>
          int_of_json (dict_get members ''weather_bad_weather_percentage'' (JInt 0)) = Some n \<longrightarrow>
            rotate_weather_in_miz w =
              (Returned False,
               [Notify Error (if path = [] then MissionPathMissing else MizNotFound)])) \<and>
         (config_json w = Parsed (JObject members) \<and> members \<noteq> [] \<and>
          \<not> truthy (dict_get members ''weather_rotation_enabled'' (JBool False)) \<longrightarrow>
            rotate_weather_in_miz w = (Returned True, []))\<close>
  using missing_archive_update [OF assms, of d] missing_archive_rotate [OF assms, of members path n]
    rotate_disabled [of w members]
  by blast

theorem missing_archive_fails_first_witness:
  \<open>\<not> miz_exists sample_world \<and>
   config_json sample_world =
     Parsed (JObject [(''weather_rotation_enabled'', JBool True),
                      (''mission_path'', JString ''C:/Missions/Foo.miz''),
                      (''weather_season'', JString ''winter''),
                      (''weather_bad_weather_percentage'', JInt 50)]) \<and>
   update_miz_start_time sample_world 60 = (Returned False, [Notify Error MizNotFound]) \<and>
   rotate_weather_in_miz sample_world = (Returned False, [Notify Error MizNotFound]) \<and>
   \<not> miz_exists (sample_world\<lparr>config_json := Parsed (sample_config False (JInt 50))\<rparr>) \<and>
   rotate_weather_in_miz (sample_world\<lparr>config_json := Parsed (sample_config False (JInt 50))\<rparr>) =
     (Returned True, [])\<close>
proof -
  let ?members = \<open>[(''weather_rotation_enabled'', JBool True),
                   (''mission_path'', JString ''C:/Missions/Foo.miz''),
                   (''weather_season'', JString ''winter''),
                   (''weather_bad_weather_percentage'', JInt 50)]\<close>
  have h: \<open>\<not> miz_exists sample_world\<close> by (simp add: sample_world_def)
  have c: \<open>config_json sample_world = Parsed (JObject ?members)\<close>
    by (simp add: sample_world_def sample_config_def)
  have e: \<open>truthy (dict_get ?members ''weather_rotation_enabled'' (JBool False))\<close>
    by (simp add: dict_get_def)
  have p: \<open>dict_get ?members ''mission_path'' (JString []) = JString ''C:/Missions/Foo.miz''\<close>
    by (simp add: dict_get_def)
  have n: \<open>int_of_json (dict_get ?members ''weather_bad_weather_percentage'' (JInt 0)) = Some 50\<close>
    by (simp add: dict_get_def)
  note inst = missing_archive_fails_first [OF h, of 60 ?members \<open>''C:/Missions/Foo.miz''\<close> 50]
  from inst have u: \<open>update_miz_start_time sample_world 60 =
      (Returned False, [Notify Error MizNotFound])\<close>
    by (rule conjunct1)
  from inst c e p n have r: \<open>rotate_weather_in_miz sample_world =
      (Returned False, [Notify Error MizNotFound])\<close>
    by simp
  let ?off = \<open>[(''weather_rotation_enabled'', JBool False),
               (''mission_path'', JString ''C:/Missions/Foo.miz''),
               (''weather_season'', JString ''winter''),
               (''weather_bad_weather_percentage'', JInt 50)]\<close>
  let ?v = \<open>sample_world\<lparr>config_json := Parsed (sample_config False (JInt 50))\<rparr>\<close>
  have h': \<open>\<not> miz_exists ?v\<close> by (simp add: sample_world_def)
  have c': \<open>config_json ?v = Parsed (JObject ?off)\<close> by (simp add: sample_config_def)
  have e': \<open>\<not> truthy (dict_get ?off ''weather_rotation_enabled'' (JBool False))\<close>
    by (simp add: dict_get_def)
  have ne: \<open>?off \<noteq> []\<close> by simp
  from missing_archive_fails_first [OF h', of 60 ?off] c' e' ne
  have r': \<open>rotate_weather_in_miz ?v = (Returned True, [])\<close>
    by blast
  show ?thesis by (intro conjI) (rule h c u r h' r')+
qed

text \<open>
  C7 as stated fails: with no archive at the configured path, a configuration that
  enables rotation and holds the text \<open>lots\<close> as its bad-weather percentage makes
  the weather workflow raise, with no failure returned and no notification, and a
  configuration that switches rotation off makes it return success.
\<close>

theorem missing_archive_no_failure_counterexample:
  \<open>\<not> miz_exists sample_world \<and>
   rotate_weather_in_miz
     (sample_world\<lparr>config_json := Parsed (sample_config True (JString ''lots''))\<rparr>) =
     (Raised, []) \<and>
   rotate_weather_in_miz
     (sample_world\<lparr>config_json := Parsed (sample_config False (JInt 50))\<rparr>) =
     (Returned True, [])\<close>
proof -
  have h: \<open>\<not> miz_exists sample_world\<close> by (simp add: sample_world_def)
  have lots: \<open>py_int ''lots'' = None\<close> by code_simp
  have a: \<open>rotate_weather_in_miz
     (sample_world\<lparr>config_json := Parsed (sample_config True (JString ''lots''))\<rparr>) =
     (Raised, [])\<close>
    by (simp add: rotate_weather_in_miz_def sample_config_def dict_get_def lots)
  have b: \<open>rotate_weather_in_miz
     (sample_world\<lparr>config_json := Parsed (sample_config False (JInt 50))\<rparr>) =
     (Returned True, [])\<close>
    by (simp add: rotate_weather_in_miz_def sample_config_def dict_get_def)
  show ?thesis by (intro conjI) (rule h a b)+
qed

text \<open>
  C8, as the code has it. When the extraction exits with a nonzero code, neither
  workflow reads the mission file and neither starts the server, whether or not the
  run has stopped it; the time workflow returns failure, and so does the weather
  workflow whenever it has called the archive tool.
\<close>

theorem extraction_failure_aborts:
  assumes \<open>extract_returncode w = Some rc\<close> and \<open>rc \<noteq> 0\<close>
  shows \<open>fst (update_miz_start_time w d) = Returned False \<and>
         ReadMission \<notin> set (snd (update_miz_start_time w d)) \<and>
         Popen \<notin> set (snd (update_miz_start_time w d)) \<and>
         ReadMission \<notin> set (snd (rotate_weather_in_miz w)) \<and>
         Popen \<notin> set (snd (rotate_weather_in_miz w)) \<and>
         (SevenZip Extract \<in> set (snd (rotate_weather_in_miz w)) \<longrightarrow>
            fst (rotate_weather_in_miz w) = Returned False)\<close>
  using update_extract_fails [OF assms, of d] rotate_extract_fails [OF assms]
  by blast

theorem extraction_failure_aborts_witness:
  \<open>extract_returncode (sample_world\<lparr>miz_exists := True\<rparr>) = Some 1 \<and> (1::int) \<noteq> 0 \<and>
   fst (update_miz_start_time (sample_world\<lparr>miz_exists := True\<rparr>) 60) = Returned False \<and>
   Popen \<notin> set (snd (update_miz_start_time (sample_world\<lparr>miz_exists := True\<rparr>) 60)) \<and>
   SevenZip Extract \<in> set (snd (rotate_weather_in_miz (sample_world\<lparr>miz_exists := True\<rparr>))) \<and>
   fst (rotate_weather_in_miz (sample_world\<lparr>miz_exists := True\<rparr>)) = Returned False\<close>
proof -
  let ?w = \<open>sample_world\<lparr>miz_exists := True\<rparr>\<close>
  have h1: \<open>extract_returncode ?w = Some 1\<close> by (simp add: sample_world_def)
  have h2: \<open>(1::int) \<noteq> 0\<close> by simp
  have z: \<open>SevenZip Extract \<in> set (snd (rotate_weather_in_miz ?w))\<close>
    by (simp add: rotate_weather_in_miz_def rotate_steps_def sample_world_def sample_config_def
          dict_get_def kill_dcs_server_if_running_def names_server_def run_7zip_def after_def
          fail_local_def)
  from extraction_failure_aborts [OF h1 h2, of 60]
  have a: \<open>fst (update_miz_start_time ?w 60) = Returned False\<close>
    and b: \<open>Popen \<notin> set (snd (update_miz_start_time ?w 60))\<close> by blast+
  from extraction_failure_aborts [OF h1 h2, of 60] z
  have c: \<open>fst (rotate_weather_in_miz ?w) = Returned False\<close> by blast
  show ?thesis by (intro conjI) (rule h1 h2 a b z c)+
qed

text \<open>
  C8 as stated fails: a run of the time workflow that has stopped the server
  (process 42) and whose extraction exits with code 1 ends without starting the
  server again.
\<close>

theorem extraction_failure_no_restart_counterexample:
  \<open>update_miz_start_time (sample_world\<lparr>miz_exists := True\<rparr>) 60 =
     (Returned False,
      [ProcessScan, Notify Info ServerStopped, Kill 42, Sleep 15, SevenZip Extract,
       Notify Error SevenZipError, Notify Error ExtractionFailed])\<close>
  by (simp add: update_miz_start_time_def sample_world_def kill_dcs_server_if_running_def
        names_server_def run_7zip_def after_def fail_local_def)

text \<open>
  C9, as the code has it. A process counts as the server when its name contains
  \<open>DCS_server.exe\<close>. When no scanned process does, the operation succeeds after the
  scan alone: no notification, no kill, no wait. Otherwise the first such process
  in the order of the scan is the one that is killed, after the stop notification,
  with the 15 second wait when the kill goes through and an error notification and
  failure when it raises; and a process is killed only if it is that first one.
\<close>

theorem stop_first_containing:
  \<open>names_server (Some n) = py_in ''DCS_server.exe'' n \<and>
   ((\<forall>q \<in> set procs. \<not> names_server (snd q)) \<longrightarrow>
      kill_dcs_server_if_running kr procs = (True, [ProcessScan])) \<and>
   (procs = pre @ (p, nm) # post \<and> names_server nm \<and>
    (\<forall>q \<in> set pre. \<not> names_server (snd q)) \<longrightarrow>
      kill_dcs_server_if_running kr procs =
        (\<not> kr p, [ProcessScan, Notify Info ServerStopped, Kill p,
                   if kr p then Notify Error StopFailed else Sleep 15])) \<and>
   (Kill x \<in> set (snd (kill_dcs_server_if_running kr procs)) \<longrightarrow>
      (\<exists>pre nm post. procs = pre @ (x, nm) # post \<and> names_server nm \<and>
         (\<forall>q \<in> set pre. \<not> names_server (snd q))))\<close>
proof -
  have a: \<open>names_server (Some n) = py_in ''DCS_server.exe'' n\<close>
    by (simp add: names_server_def)
  have b: \<open>(\<forall>q \<in> set procs. \<not> names_server (snd q)) \<longrightarrow>
      kill_dcs_server_if_running kr procs = (True, [ProcessScan])\<close>
    by (simp add: kill_dcs_server_if_running_def stop_first_match_none)
  have c: \<open>procs = pre @ (p, nm) # post \<and> names_server nm \<and>
    (\<forall>q \<in> set pre. \<not> names_server (snd q)) \<longrightarrow>
      kill_dcs_server_if_running kr procs =
        (\<not> kr p, [ProcessScan, Notify Info ServerStopped, Kill p,
                   if kr p then Notify Error StopFailed else Sleep 15])\<close>
    by (simp add: kill_dcs_server_if_running_def stop_first_match_first)
  have d: \<open>Kill x \<in> set (snd (kill_dcs_server_if_running kr procs)) \<longrightarrow>
      (\<exists>pre nm post. procs = pre @ (x, nm) # post \<and> names_server nm \<and>
         (\<forall>q \<in> set pre. \<not> names_server (snd q)))\<close>
  proof
    assume k: \<open>Kill x \<in> set (snd (kill_dcs_server_if_running kr procs))\<close>
    have \<open>\<exists>q \<in> set procs. names_server (snd q)\<close>
    proof (rule ccontr)
      assume \<open>\<not> (\<exists>q \<in> set procs. names_server (snd q))\<close>
      then have \<open>kill_dcs_server_if_running kr procs = (True, [ProcessScan])\<close>
        by (simp add: kill_dcs_server_if_running_def stop_first_match_none)
      with k show False by simp
    qed
    from first_match_split [OF this] obtain pre1 p1 nm1 post1 where
      s: \<open>procs = pre1 @ (p1, nm1) # post1\<close> \<open>names_server nm1\<close>
         \<open>\<forall>q \<in> set pre1. \<not> names_server (snd q)\<close> by blast
    then have \<open>snd (kill_dcs_server_if_running kr procs) =
        [ProcessScan, Notify Info ServerStopped, Kill p1,
         if kr p1 then Notify Error StopFailed else Sleep 15]\<close>
      by (simp add: kill_dcs_server_if_running_def stop_first_match_first)
    with k have \<open>x = p1\<close> by (auto split: if_splits)
    with s show \<open>\<exists>pre nm post. procs = pre @ (x, nm) # post \<and> names_server nm \<and>
         (\<forall>q \<in> set pre. \<not> names_server (snd q))\<close> by blast
  qed
  from a b c d show ?thesis by blast
qed

theorem stop_first_containing_witness:
  \<open>\<not> names_server (Some ''explorer.exe'') \<and>
   kill_dcs_server_if_running (\<lambda>p. False) [(7, Some ''explorer.exe'')] = (True, [ProcessScan]) \<and>
   names_server (Some ''DCS_server.exe'') \<and>
   kill_dcs_server_if_running (\<lambda>p. False)
     ([(7, Some ''explorer.exe'')] @ (42, Some ''DCS_server.exe'') # [(43, Some ''DCS_server.exe'')]) =
     (True, [ProcessScan, Notify Info ServerStopped, Kill 42, Sleep 15]) \<and>
   Kill 42 \<in> set (snd (kill_dcs_server_if_running (\<lambda>p. True) [(42, Some ''DCS_server.exe'')])) \<and>
   (\<exists>pre nm post. [(42::nat, Some ''DCS_server.exe'')] = pre @ (42, nm) # post \<and> names_server nm)\<close>
proof -
  have h1: \<open>\<forall>q \<in> set [(7::nat, Some ''explorer.exe'')]. \<not> names_server (snd q)\<close>
    by (simp add: names_server_def)
  have h2: \<open>names_server (Some ''DCS_server.exe'')\<close>
    by (simp add: names_server_def)
  from stop_first_containing [of \<open>[]\<close> \<open>[(7, Some ''explorer.exe'')]\<close> \<open>\<lambda>p. False\<close>] h1
  have a: \<open>kill_dcs_server_if_running (\<lambda>p. False) [(7, Some ''explorer.exe'')] =
      (True, [ProcessScan])\<close>
    by blast
  from stop_first_containing
    [of \<open>[]\<close> \<open>[(7, Some ''explorer.exe'')] @ (42, Some ''DCS_server.exe'') # [(43, Some ''DCS_server.exe'')]\<close>
        \<open>\<lambda>p. False\<close> \<open>[(7, Some ''explorer.exe'')]\<close> 42 \<open>Some ''DCS_server.exe''\<close>
        \<open>[(43, Some ''DCS_server.exe'')]\<close>] h1 h2
  have b: \<open>kill_dcs_server_if_running (\<lambda>p. False)
     ([(7, Some ''explorer.exe'')] @ (42, Some ''DCS_server.exe'') # [(43, Some ''DCS_server.exe'')]) =
     (True, [ProcessScan, Notify Info ServerStopped, Kill 42, Sleep 15])\<close>
    by simp
  have k: \<open>Kill 42 \<in> set (snd (kill_dcs_server_if_running (\<lambda>p. True) [(42, Some ''DCS_server.exe'')]))\<close>
    by (simp add: kill_dcs_server_if_running_def names_server_def)
  have \<open>Kill 42 \<in> set (snd (kill_dcs_server_if_running (\<lambda>p. True) [(42, Some ''DCS_server.exe'')])) \<longrightarrow>
      (\<exists>pre nm post. [(42::nat, Some ''DCS_server.exe'')] = pre @ (42, nm) # post \<and> names_server nm \<and>
         (\<forall>q \<in> set pre. \<not> names_server (snd q)))\<close>
    by (rule stop_first_containing [where procs = \<open>[(42, Some ''DCS_server.exe'')]\<close> and x = 42
          and kr = \<open>\<lambda>p. True\<close>, THEN conjunct2, THEN conjunct2, THEN conjunct2])
  from this k have \<open>\<exists>pre nm post. [(42::nat, Some ''DCS_server.exe'')] = pre @ (42, nm) # post \<and>
      names_server nm \<and> (\<forall>q \<in> set pre. \<not> names_server (snd q))\<close>
    by (rule mp)
  then have c: \<open>\<exists>pre nm post. [(42::nat, Some ''DCS_server.exe'')] = pre @ (42, nm) # post \<and> names_server nm\<close>
    by (elim exE conjE) (intro exI conjI; assumption)
  have nx: \<open>\<not> names_server (Some ''explorer.exe'')\<close>
    by (simp add: names_server_def)
  show ?thesis
    by (intro conjI) (rule nx a h2 b k c)+
qed

text \<open>
  C9 as stated fails both ways: a process whose name only contains the name of the
  server executable is killed, and a second process with exactly that name is not.
\<close>

theorem stop_by_name_counterexample:
  \<open>''MyDCS_server.exe.bak'' \<noteq> ''DCS_server.exe'' \<and>
   Kill 7 \<in> set (snd (kill_dcs_server_if_running (\<lambda>p. False) [(7, Some ''MyDCS_server.exe.bak'')])) \<and>
   Kill 43 \<notin> set (snd (kill_dcs_server_if_running (\<lambda>p. False)
      [(42, Some ''DCS_server.exe''), (43, Some ''DCS_server.exe'')]))\<close>
  by (simp add: kill_dcs_server_if_running_def names_server_def)

text \<open>
  C10, as the code has it. A matched result of the extractor always carries the time
  text and an integer number of seconds, the conversion of that text. The conversion
  gives 0 for every text that is not three fields between colons that all read as
  integers, and the sum of hours, minutes and seconds otherwise; the result is not
  negative when the text holds no minus sign.
\<close>

theorem matched_result_has_seconds:
  \<open>(fst (extract_time_and_mission page expected) \<longrightarrow>
      (\<exists>t. extract_time_and_mission page expected =
              (True, Some t, Some (convert_hms_to_seconds t)))) \<and>
   (split_on (CHR '':'') hms = [h, m, s] \<and>
    py_int h = Some a \<and> py_int m = Some b \<and> py_int s = Some c \<longrightarrow>
      convert_hms_to_seconds hms = a * 3600 + b * 60 + c) \<and>
   (length (split_on (CHR '':'') hms) \<noteq> 3 \<or>
    (\<exists>f \<in> set (split_on (CHR '':'') hms). py_int f = None) \<longrightarrow>
      convert_hms_to_seconds hms = 0) \<and>
   (CHR ''-'' \<notin> set hms \<longrightarrow> 0 \<le> convert_hms_to_seconds hms)\<close>
proof -
  have a: \<open>fst (extract_time_and_mission page expected) \<longrightarrow>
      (\<exists>t. extract_time_and_mission page expected =
              (True, Some t, Some (convert_hms_to_seconds t)))\<close>
    using extract_matched by blast
  have b: \<open>split_on (CHR '':'') hms = [h, m, s] \<and>
    py_int h = Some a \<and> py_int m = Some b \<and> py_int s = Some c \<longrightarrow>
      convert_hms_to_seconds hms = a * 3600 + b * 60 + c\<close>
    by (simp add: convert_hms_to_seconds_def)
  have c: \<open>length (split_on (CHR '':'') hms) \<noteq> 3 \<or>
    (\<exists>f \<in> set (split_on (CHR '':'') hms). py_int f = None) \<longrightarrow>
      convert_hms_to_seconds hms = 0\<close>
    by (auto simp: convert_hms_to_seconds_def split: list.splits option.splits)
  have d: \<open>CHR ''-'' \<notin> set hms \<longrightarrow> 0 \<le> convert_hms_to_seconds hms\<close>
    using convert_nonneg by blast
  from a b c d show ?thesis by blast
qed

theorem matched_result_has_seconds_witness:
  \<open>fst (extract_time_and_mission (sample_page\<lparr>time_elem := Some ''10:00:05''\<rparr>) sample_expected) \<and>
   extract_time_and_mission (sample_page\<lparr>time_elem := Some ''10:00:05''\<rparr>) sample_expected =
     (True, Some ''10:00:05'', Some 36005) \<and>
   split_on (CHR '':'') ''10:00:05'' = [''10'', ''00'', ''05''] \<and>
   py_int ''10'' = Some 10 \<and> py_int ''00'' = Some 0 \<and> py_int ''05'' = Some 5 \<and>
   convert_hms_to_seconds ''10:00:05'' = 36005 \<and>
   CHR ''-'' \<notin> set ''10:00:05'' \<and> 0 \<le> convert_hms_to_seconds ''10:00:05'' \<and>
   length (split_on (CHR '':'') ''10:00'') \<noteq> 3 \<and> convert_hms_to_seconds ''10:00'' = 0 \<and>
   split_on (CHR '':'') (''1:'' @ [CHR 0x1F] @ ''2:3'') = [''1'', [CHR 0x1F, CHR ''2''], ''3''] \<and>
   py_int [CHR 0x1F, CHR ''2''] = None \<and>
   convert_hms_to_seconds (''1:'' @ [CHR 0x1F] @ ''2:3'') = 0\<close>
proof -
  let ?page = \<open>sample_page\<lparr>time_elem := Some ''10:00:05''\<rparr>\<close>
  let ?r = \<open>extract_time_and_mission ?page sample_expected\<close>
  have v: \<open>?r = (True, Some ''10:00:05'', Some 36005)\<close>
    unfolding sample_page_def sample_expected_def by code_simp
  then have h1: \<open>fst ?r\<close> by simp
  have sp: \<open>split_on (CHR '':'') ''10:00:05'' = [''10'', ''00'', ''05'']\<close> by simp
  have i1: \<open>py_int ''10'' = Some 10\<close> by code_simp
  have i2: \<open>py_int ''00'' = Some 0\<close> by code_simp
  have i3: \<open>py_int ''05'' = Some 5\<close> by code_simp
  have h2: \<open>CHR ''-'' \<notin> set ''10:00:05''\<close> by simp
  have h3: \<open>length (split_on (CHR '':'') ''10:00'') \<noteq> 3\<close> by simp
  note inst = matched_result_has_seconds [of ?page sample_expected \<open>''10:00:05''\<close>
      \<open>''10''\<close> \<open>''00''\<close> \<open>''05''\<close> 10 0 5]
  from inst sp i1 i2 i3 have cv: \<open>convert_hms_to_seconds ''10:00:05'' = 36005\<close> by simp
  from inst h2 have n: \<open>0 \<le> convert_hms_to_seconds ''10:00:05''\<close> by blast
  from matched_result_has_seconds [of sample_page \<open>''x''\<close> \<open>''10:00''\<close>] h3
  have z: \<open>convert_hms_to_seconds ''10:00'' = 0\<close> by blast
  have sq: \<open>split_on (CHR '':'') (''1:'' @ [CHR 0x1F] @ ''2:3'') =
      [''1'', [CHR 0x1F, CHR ''2''], ''3'']\<close> by simp
  have iq: \<open>py_int [CHR 0x1F, CHR ''2''] = None\<close> by code_simp
  from sq iq have hq: \<open>\<exists>f \<in> set (split_on (CHR '':'') (''1:'' @ [CHR 0x1F] @ ''2:3'')).
      py_int f = None\<close> by simp
  from matched_result_has_seconds [of sample_page \<open>''x''\<close> \<open>''1:'' @ [CHR 0x1F] @ ''2:3''\<close>] hq
  have q: \<open>convert_hms_to_seconds (''1:'' @ [CHR 0x1F] @ ''2:3'') = 0\<close> by blast
  show ?thesis by (intro conjI) (rule h1 v sp i1 i2 i3 cv h2 n h3 z sq iq q)+
qed

text \<open>
  C10 as stated fails: for the clock text \<open>-1:00:00\<close> the extractor returns a matched
  result whose seconds are negative.
\<close>

theorem negative_seconds_counterexample:
  \<open>extract_time_and_mission sample_page ''C:/Missions/Foo.miz'' =
     (True, Some ''-1:00:00'', Some (- 3600))\<close>
  unfolding sample_page_def by code_simp

end
